(* ===== verification/Prelude.thy ===== *)
theory Prelude
  imports Main "HOL-Library.Sublist"
begin

text \<open>
  Shared vocabulary of the development: the type of JavaScript string contents
  after a case mapping (UTF-16 code units), the collection \<open>app_unfold\<close> of
  definitions that concrete runs of the application are evaluated with, and
  generic lemmas on lists and association maps that the registry, the screen
  and the application theories all use: counting matches of a filter, replacing
  the elements with a given key, the map abstraction of a list of keyed records,
  and contiguous sublists read through \<open>take\<close>/\<open>drop\<close>.
\<close>

named_theorems app_unfold "definitions unfolded to run the application model on concrete inputs"

type_synonym js_units = "nat list" \<comment> \<open>UTF-16 code units of a JavaScript string\<close>

text \<open>
  A list of records carrying a key is read as the map from each key to the first
  record with that key (\<open>map_of\<close>); this is the abstraction function of the
  registry's refinement lemmas.
\<close>

definition keyed_map :: "('a \<Rightarrow> 'k) \<Rightarrow> 'a list \<Rightarrow> 'k \<rightharpoonup> 'a" where
  "keyed_map f xs = map_of (map (\<lambda>x. (f x, x)) xs)"


subsection \<open>Filters and replacements\<close>

lemma length_filter_pos_iff [simp]: "(0 < length (filter P xs)) = (\<exists>x\<in>set xs. P x)"
  by (induction xs) auto

lemma map_key_replace [simp]:
  "f y = k \<Longrightarrow> map f (map (\<lambda>x. if f x = k then y else x) xs) = map f xs"
  by (induction xs) auto

lemma set_replace_subset:
  "set (map (\<lambda>x. if f x = k then y else x) xs) \<subseteq> insert y (set xs)"
  by auto

subsection \<open>Lists of keyed records as maps\<close>

lemma keyed_map_Nil [simp]: "keyed_map f [] = Map.empty"
  by (simp add: keyed_map_def)

lemma keyed_map_snoc: "keyed_map f (xs @ [y]) = [f y \<mapsto> y] ++ keyed_map f xs"
  by (simp add: keyed_map_def)

lemma dom_keyed_map [simp]: "dom (keyed_map f xs) = f ` set xs"
  by (simp add: keyed_map_def dom_map_of_conv_image_fst image_image)

lemma ran_keyed_map: "distinct (map f xs) \<Longrightarrow> ran (keyed_map f xs) = set xs"
  by (simp add: keyed_map_def ran_distinct comp_def image_image)

lemma keyed_map_filter_key:
  "keyed_map f (filter (\<lambda>x. f x \<noteq> k) xs) = (keyed_map f xs)(k := None)"
  by (induction xs) (auto simp: keyed_map_def fun_eq_iff)

lemma keyed_map_replace_key:
  assumes "f y = k"
  shows "keyed_map f (map (\<lambda>x. if f x = k then y else x) xs) =
         (if k \<in> f ` set xs then (keyed_map f xs)(k \<mapsto> y) else keyed_map f xs)"
  using assms by (induction xs) (auto simp: keyed_map_def fun_eq_iff)

lemma keyed_map_fresh_snoc:
  assumes "f y \<notin> f ` set xs"
  shows "keyed_map f (xs @ [y]) = (keyed_map f xs)(f y \<mapsto> y)"
proof -
  from assms have "f y \<notin> dom (keyed_map f xs)"
    by simp
  then have "keyed_map f xs (f y) = None"
    by blast
  then show ?thesis
    by (auto simp: keyed_map_snoc map_add_def fun_eq_iff split: option.splits)
qed

subsection \<open>Contiguous sublists\<close>

lemma sublist_iff_take_drop:
  "sublist q s = (\<exists>j. j + length q \<le> length s \<and> take (length q) (drop j s) = q)"
proof
  assume "sublist q s"
  then obtain ps ss where s: "s = ps @ q @ ss" by (auto simp: sublist_def)
  then show "\<exists>j. j + length q \<le> length s \<and> take (length q) (drop j s) = q"
    by (intro exI [of _ "length ps"]) simp
next
  assume "\<exists>j. j + length q \<le> length s \<and> take (length q) (drop j s) = q"
  then obtain j where j: "j + length q \<le> length s" "take (length q) (drop j s) = q" by blast
  have "s = take j s @ take (length q) (drop j s) @ drop (length q) (drop j s)"
    by (metis append_take_drop_id)
  with j(2) show "sublist q s" by (metis sublist_appendI)
qed

lemma list_all_concat_lists: "list_all P (concat xss) = list_all (list_all P) xss"
  by (induction xss) simp_all

lemma concat_map_Nil [simp]: "concat (map (\<lambda>x. []) xs) = []"
  by (induction xs) simp_all

end
