(* ===== verification/JS_String.thy ===== *)
theory JS_String
  imports Prelude
begin

text \<open>
  The JavaScript string builtins the sources call, modelled from the ECMAScript
  specification (they are not code of the repository): \<open>String.prototype.toUpperCase\<close>
  (PetContext.tsx lines 54 and 89), \<open>String.prototype.includes\<close> (line 89),
  \<open>replace(/[^0-9]/g, '')\<close> (MainScreen.tsx line 161) and
  \<open>Number.prototype.toString\<close> on \<open>Date.now()\<close> (MainScreen.tsx line 51).

  Input strings are Isabelle \<open>string\<close>s, whose characters are the 256 Latin-1 code
  points U+0000..U+00FF; for such strings every UTF-16 code unit is one character.
  The upper-cased result is a list of UTF-16 code units (\<open>js_units\<close>), because three
  Latin-1 letters upper-case outside Latin-1 or to two letters: U+00B5 MICRO SIGN to
  U+039C, U+00FF to U+0178, and U+00DF SHARP S to "SS".
\<close>

subsection \<open>toUpperCase\<close>

definition upper_char :: "char \<Rightarrow> js_units" where
  "upper_char c =
     (let n = of_char c in
      if 97 \<le> n \<and> n \<le> 122 then [n - 32]
      else if n = 181 then [924]
      else if n = 223 then [83, 83]
      else if 224 \<le> n \<and> n \<le> 254 \<and> n \<noteq> 247 then [n - 32]
      else if n = 255 then [376]
      else [n])"

definition toUpperCase :: "string \<Rightarrow> js_units" where
  "toUpperCase s = concat (map upper_char s)"

subsection \<open>includes\<close>

text \<open>
  ECMAScript's StringIndexOf(S, searchValue, fromIndex): the least index
  \<open>i \<ge> fromIndex\<close> with \<open>i + |searchValue| \<le> |S|\<close> at which \<open>searchValue\<close> occurs,
  tried in increasing order; \<open>includes\<close> is "StringIndexOf from 0 is not -1"
  (\<open>None\<close> stands for -1). The loop stops because \<open>|S| + 1 - i\<close> decreases.
\<close>

function string_index_of :: "'a list \<Rightarrow> 'a list \<Rightarrow> nat \<Rightarrow> nat option" where
  "string_index_of s q i =
     (if length s < i + length q then None
      else if take (length q) (drop i s) = q then Some i
      else string_index_of s q (Suc i))"
  by pat_completeness auto
termination
  by (relation "measure (\<lambda>(s, q, i). Suc (length s) - i)") auto

declare string_index_of.simps [simp del]

definition js_includes :: "'a list \<Rightarrow> 'a list \<Rightarrow> bool" where
  "js_includes s q = (string_index_of s q 0 \<noteq> None)"

subsection \<open>The age filter\<close>

definition is_ascii_digit :: "char \<Rightarrow> bool" where
  "is_ascii_digit c = (let n = (of_char c :: nat) in 48 \<le> n \<and> n \<le> 57)"

text \<open>\<open>s.replace(/[^0-9]/g, '')\<close>: every character outside 0..9 is removed.\<close>

definition strip_non_digits :: "string \<Rightarrow> string" where
  "strip_non_digits s = filter is_ascii_digit s"

subsection \<open>Number.prototype.toString on integral values\<close>

text \<open>
  For an integral number below \<open>10^21\<close> (every \<open>Date.now()\<close> value until the year
  three billion), ECMAScript's Number::toString yields its decimal digits with no
  leading zero. The model takes the millisecond clock as a \<open>nat\<close>.
\<close>

definition digit_char :: "nat \<Rightarrow> char" where
  "digit_char d = char_of (48 + d)"

fun nat_to_string :: "nat \<Rightarrow> string" where
  "nat_to_string n =
     (if n < 10 then [digit_char n] else nat_to_string (n div 10) @ [digit_char (n mod 10)])"

declare nat_to_string.simps [simp del]

text \<open>Reading a decimal string back (the inverse used for the round trip).\<close>

definition string_to_nat :: "string \<Rightarrow> nat" where
  "string_to_nat s = foldl (\<lambda>acc c. 10 * acc + (of_char c - 48)) 0 s"

text \<open>A decimal string as \<open>toString\<close> writes one: digits only, no leading zero.\<close>

definition decimal_canonical :: "string \<Rightarrow> bool" where
  "decimal_canonical s =
     (s \<noteq> [] \<and> (\<forall>c\<in>set s. is_ascii_digit c) \<and> (hd s = CHR ''0'' \<longrightarrow> s = ''0''))"

subsection \<open>Lemmas: upper-casing\<close>

lemma toUpperCase_Nil [simp]: "toUpperCase [] = []"
  by (simp add: toUpperCase_def)

lemma toUpperCase_Cons [simp]: "toUpperCase (c # s) = upper_char c @ toUpperCase s"
  by (simp add: toUpperCase_def)

lemma toUpperCase_append [simp]: "toUpperCase (s @ t) = toUpperCase s @ toUpperCase t"
  by (simp add: toUpperCase_def)

lemma upper_char_length: "1 \<le> length (upper_char c) \<and> length (upper_char c) \<le> 2"
  by (simp add: upper_char_def Let_def)

lemma toUpperCase_eq_Nil_iff [simp]: "(toUpperCase s = []) = (s = [])"
  using upper_char_length [of "hd s"] by (cases s) auto

lemma upper_char_ascii_case:
  "65 \<le> (of_char c :: nat) \<Longrightarrow> of_char c \<le> (90::nat) \<Longrightarrow>
   upper_char (char_of (of_char c + (32::nat))) = upper_char c"
  by (simp add: upper_char_def Let_def)

subsection \<open>Lemmas: includes\<close>

lemma string_index_of_found:
  "(string_index_of s q i \<noteq> None) =
   (\<exists>j\<ge>i. j + length q \<le> length s \<and> take (length q) (drop j s) = q)"
proof (induction s q i rule: string_index_of.induct)
  case (1 s q i)
  show ?case
  proof (cases "length s < i + length q")
    case True
    then show ?thesis by (auto simp: string_index_of.simps [of s q i])
  next
    case False
    show ?thesis
    proof (cases "take (length q) (drop i s) = q")
      case True
      with False show ?thesis by (auto simp: string_index_of.simps [of s q i])
    next
      case nomatch: False
      have "(\<exists>j\<ge>i. j + length q \<le> length s \<and> take (length q) (drop j s) = q) =
            (\<exists>j\<ge>Suc i. j + length q \<le> length s \<and> take (length q) (drop j s) = q)"
        using nomatch by (metis Suc_leD le_antisym not_less_eq_eq)
      with False nomatch "1.IH" show ?thesis
        by (simp add: string_index_of.simps [of s q i])
    qed
  qed
qed

lemma js_includes_iff_sublist: "js_includes s q = sublist q s"
  unfolding js_includes_def string_index_of_found sublist_iff_take_drop by simp

subsection \<open>Lemmas: decimal strings and digits\<close>

lemma of_char_digit_char [simp]: "d < 10 \<Longrightarrow> of_char (digit_char d) = 48 + d"
  by (simp add: digit_char_def)

lemma is_ascii_digit_digit_char [simp]: "d < 10 \<Longrightarrow> is_ascii_digit (digit_char d)"
  by (simp add: is_ascii_digit_def)

lemma string_to_nat_snoc [simp]:
  "string_to_nat (s @ [c]) = 10 * string_to_nat s + (of_char c - 48)"
  by (simp add: string_to_nat_def)

lemma string_to_nat_nat_to_string: "string_to_nat (nat_to_string n) = n"
proof (induction n rule: nat_to_string.induct)
  case (1 n)
  show ?case
  proof (cases "n < 10")
    case True
    then show ?thesis by (simp add: nat_to_string.simps [of n] string_to_nat_def)
  next
    case False
    with "1.IH" show ?thesis by (simp add: nat_to_string.simps [of n])
  qed
qed

lemma nat_to_string_inj: "(nat_to_string m = nat_to_string n) = (m = n)"
  by (metis string_to_nat_nat_to_string)

lemma strip_non_digits_digits: "\<forall>c\<in>set (strip_non_digits s). is_ascii_digit c"
  by (simp add: strip_non_digits_def)

lemma strip_non_digits_id: "(\<forall>c\<in>set s. is_ascii_digit c) \<Longrightarrow> strip_non_digits s = s"
  by (simp add: strip_non_digits_def)

lemma digit_char_of_digit:
  "is_ascii_digit c \<Longrightarrow> digit_char (of_char c - 48) = c"
  by (simp add: digit_char_def is_ascii_digit_def Let_def)

lemma is_ascii_digit_value: "is_ascii_digit c \<Longrightarrow> of_char c - 48 < (10::nat)"
  unfolding is_ascii_digit_def Let_def by linarith

lemma string_to_nat_single [simp]: "string_to_nat [c] = of_char c - 48"
  by (simp add: string_to_nat_def)

lemma string_to_nat_pos:
  "s \<noteq> [] \<Longrightarrow> \<forall>c\<in>set s. is_ascii_digit c \<Longrightarrow> hd s \<noteq> CHR ''0'' \<Longrightarrow> 0 < string_to_nat s"
proof (induction s rule: rev_induct)
  case Nil
  then show ?case by simp
next
  case (snoc c s)
  show ?case
  proof (cases "s = []")
    case True
    with snoc.prems have "is_ascii_digit c" "c \<noteq> CHR ''0''" by auto
    have "(of_char c :: nat) \<noteq> 48"
    proof
      assume "(of_char c :: nat) = 48"
      then have "char_of (of_char c :: nat) = char_of (48::nat)" by simp
      with \<open>c \<noteq> CHR ''0''\<close> show False by (simp add: char_of_eq_iff)
    qed
    with \<open>is_ascii_digit c\<close> have "48 < (of_char c :: nat)"
      unfolding is_ascii_digit_def Let_def by linarith
    with True show ?thesis by simp
  next
    case False
    with snoc.prems snoc.IH have "0 < string_to_nat s" by simp
    then show ?thesis by simp
  qed
qed

lemma nat_to_string_string_to_nat:
  "decimal_canonical s \<Longrightarrow> nat_to_string (string_to_nat s) = s"
proof (induction s rule: rev_induct)
  case Nil
  then show ?case by (simp add: decimal_canonical_def)
next
  case (snoc c s)
  have c: "is_ascii_digit c" using snoc.prems by (simp add: decimal_canonical_def)
  show ?case
  proof (cases "s = []")
    case True
    with c show ?thesis
      by (simp add: nat_to_string.simps [of "of_char c - 48"] is_ascii_digit_value digit_char_of_digit)
  next
    case False
    have digits: "\<forall>c\<in>set s. is_ascii_digit c" and hd0: "hd s \<noteq> CHR ''0''"
      using snoc.prems False by (auto simp: decimal_canonical_def)
    then have canon: "decimal_canonical s"
      using False by (simp add: decimal_canonical_def)
    have pos: "0 < string_to_nat s"
      using False digits hd0 by (rule string_to_nat_pos)
    let ?n = "10 * string_to_nat s + (of_char c - 48)"
    have big: "\<not> ?n < 10" using pos by simp
    have d10: "(of_char c - 48) mod 10 = (of_char c - 48 :: nat)"
      using is_ascii_digit_value [OF c] by simp
    have div: "?n div 10 = string_to_nat s" and md: "?n mod 10 = of_char c - 48"
      using is_ascii_digit_value [OF c] by simp_all
    show ?thesis
      using big snoc.IH [OF canon]
      by (simp add: nat_to_string.simps [of ?n] div md d10 digit_char_of_digit c)
  qed
qed

lemma nat_to_string_canonical: "decimal_canonical (nat_to_string n)"
proof (induction n rule: nat_to_string.induct)
  case (1 n)
  show ?case
  proof (cases "n < 10")
    case True
    then show ?thesis
      by (auto simp: nat_to_string.simps [of n] decimal_canonical_def)
  next
    case False
    with "1.IH" have "decimal_canonical (nat_to_string (n div 10))" by simp
    moreover have "nat_to_string (n div 10) \<noteq> ''0''"
    proof
      assume "nat_to_string (n div 10) = ''0''"
      then have "string_to_nat (nat_to_string (n div 10)) = 0" by simp
      with False show False by (simp add: string_to_nat_nat_to_string)
    qed
    ultimately show ?thesis using False
      by (auto simp: nat_to_string.simps [of n] decimal_canonical_def)
  qed
qed

subsection \<open>Properties of the builtins\<close>

text \<open>
  StringIndexOf, the loop behind \<open>includes\<close>, returns index \<open>j\<close> exactly when
  \<open>j\<close> is the least index from the start position at which the search string occurs
  within the string.
\<close>

theorem string_index_of_least:
  "(string_index_of s q i = Some j) =
   (i \<le> j \<and> j + length q \<le> length s \<and> take (length q) (drop j s) = q \<and>
    (\<forall>k. i \<le> k \<longrightarrow> k < j \<longrightarrow> take (length q) (drop k s) \<noteq> q))"
proof (induction s q i rule: string_index_of.induct)
  case (1 s q i)
  show ?case
  proof (cases "length s < i + length q")
    case True
    then show ?thesis by (auto simp: string_index_of.simps [of s q i])
  next
    case False
    show ?thesis
    proof (cases "take (length q) (drop i s) = q")
      case True
      with False show ?thesis
        by (auto simp: string_index_of.simps [of s q i] intro: le_antisym)
    next
      case nomatch: False
      let ?A = "j + length q \<le> length s \<and> take (length q) (drop j s) = q"
      let ?Q = "\<lambda>m. \<forall>k. m \<le> k \<longrightarrow> k < j \<longrightarrow> take (length q) (drop k s) \<noteq> q"
      from False nomatch have e1: "string_index_of s q i = string_index_of s q (Suc i)"
        by (simp add: string_index_of.simps [of s q i])
      have Qeq: "?Q i = ?Q (Suc i)"
      proof
        assume "?Q i"
        then show "?Q (Suc i)" by simp
      next
        assume R: "?Q (Suc i)"
        show "?Q i"
        proof (intro allI impI)
          fix k assume k: "i \<le> k" "k < j"
          show "take (length q) (drop k s) \<noteq> q"
          proof (cases "k = i")
            case True
            with nomatch show ?thesis by simp
          next
            case False
            with k R show ?thesis by simp
          qed
        qed
      qed
      have jeq: "(i \<le> j \<and> ?A) = (Suc i \<le> j \<and> ?A)"
        using nomatch by (auto simp: le_less Suc_le_eq)
      have "(string_index_of s q i = Some j) = (Suc i \<le> j \<and> ?A \<and> ?Q (Suc i))"
        using e1 "1.IH" [OF False nomatch] by simp
      also have "\<dots> = (i \<le> j \<and> ?A \<and> ?Q i)"
        using jeq Qeq by blast
      finally show ?thesis by simp
    qed
  qed
qed

theorem string_index_of_least_witness:
  "string_index_of ''xbcbc'' ''bc'' 0 = Some 1 \<and> take 2 (drop 1 ''xbcbc'') = ''bc''"
proof -
  have h: "string_index_of ''xbcbc'' ''bc'' 0 = Some 1"
    by (simp add: string_index_of.simps)
  then show ?thesis using string_index_of_least [of "''xbcbc''" "''bc''" 0 1] by simp
qed

text \<open>
  Decimal printing round-trips: reading back \<open>nat_to_string n\<close> gives \<open>n\<close>,
  the printed string is canonical (digits only, no leading zero), and printing the
  value of a canonical string gives the string back.
\<close>

theorem decimal_roundtrip:
  "string_to_nat (nat_to_string n) = n \<and> decimal_canonical (nat_to_string n) \<and>
   (decimal_canonical s \<longrightarrow> nat_to_string (string_to_nat s) = s)"
  by (simp add: string_to_nat_nat_to_string nat_to_string_canonical nat_to_string_string_to_nat)

theorem decimal_roundtrip_witness:
  "decimal_canonical ''1700000000123'' \<and> nat_to_string (string_to_nat ''1700000000123'') = ''1700000000123''"
proof -
  have h: "decimal_canonical ''1700000000123''"
    by (simp add: decimal_canonical_def is_ascii_digit_def)
  show ?thesis using h decimal_roundtrip [of _ "''1700000000123''"] by simp
qed

text \<open>
  Upper-casing a Latin-1 string yields at least as many and at most twice as many
  UTF-16 code units as the string has characters (only U+00DF grows, to "SS").
\<close>

theorem toUpperCase_length_bounds:
  "length s \<le> length (toUpperCase s) \<and> length (toUpperCase s) \<le> 2 * length s"
proof (induction s)
  case Nil
  then show ?case by simp
next
  case (Cons c s)
  then show ?case using upper_char_length [of c] by simp
qed

lemma nat_to_string_length_le: "0 < k \<Longrightarrow> n < 10 ^ k \<Longrightarrow> length (nat_to_string n) \<le> k"
proof (induction k arbitrary: n)
  case 0
  then show ?case by simp
next
  case (Suc k)
  show ?case
  proof (cases "n < 10")
    case True
    then show ?thesis by (simp add: nat_to_string.simps [of n])
  next
    case False
    then have k: "0 < k" using Suc.prems(2) by (cases k) auto
    have "n div 10 < 10 ^ k" using Suc.prems(2) by (simp add: div_less_iff_less_mult mult.commute)
    with Suc.IH [OF k] False show ?thesis by (simp add: nat_to_string.simps [of n])
  qed
qed

end
