(* ===== verification/Pet_Types.thy ===== *)
theory Pet_Types
  imports JS_String
begin

text \<open>
  The data of the program: the object types of \<open>src/types/index.ts\<close> as records,
  in the field order of the source, and the constant table of species and breeds of
  \<open>src/constants/index.ts\<close>. Optional properties (\<open>?:\<close>) are \<open>option\<close> fields,
  \<open>undefined\<close> being \<open>None\<close>. The field \<open>id\<close> is \<open>pet_id\<close> and \<open>image\<close> is
  \<open>pet_image\<close>, since \<open>id\<close> and \<open>image\<close> are constants of HOL.
  \<open>RootStackParamList\<close> names the navigator's one route, \<open>Main\<close>, which takes
  no parameters (\<open>undefined\<close>); it is a datatype with one constructor.
\<close>

record petCategory =
  category :: string
  breeds :: "string list option"

record pet =
  pet_id :: string
  name :: string
  age :: string
  petCategory :: "petCategory option"
  pet_image :: "string option"
  description :: "string option"

datatype rootStackParamList = Main

record petOperationResponse =
  success :: bool
  message :: "string option"

definition PetCategories :: "petCategory list" where
  "PetCategories =
     [\<lparr>category = ''Dog'', breeds = Some [''Golden Retriever'', ''German Shepherd'', ''Pug'', ''Other'']\<rparr>,
      \<lparr>category = ''Cat'', breeds = Some [''Calico'', ''Persian'', ''Siamese'', ''Other'']\<rparr>]"

end
