(* ===== verification/Pet_Context.thy ===== *)
theory Pet_Context
  imports Pet_Types
begin

text \<open>
  The pet registry of \<open>src/context/PetContext.tsx\<close>. The provider's state
  \<open>pets\<close> (\<open>useState<Pet[]>([])\<close>) is a list of records; each operation takes
  the state its closure sees and returns the state it passes to \<open>setPets\<close>
  together with its response. \<open>addPet\<close> rejects a name that upper-cases to the
  upper-casing of an existing name; \<open>updatePet\<close> replaces every record with the
  candidate's id; \<open>deletePet\<close> keeps the records with another id; \<open>searchPets\<close>
  filters by upper-cased substring. The operations the context exports are also a
  datatype \<open>registry_op\<close> with a step function, which the screen drives.

  The abstract registry is a map from ids to records (\<open>pets_map\<close>, the first record
  of each id); \<open>spec_add\<close>, \<open>spec_update\<close> and \<open>spec_delete\<close> state the contract
  of section 4.1 of the design on it, and the refinement lemmas show that the list
  operations implement it on registries with distinct ids.
\<close>

subsection \<open>State and operations\<close>

definition PetProvider_init :: "pet list" where
  "PetProvider_init = []"

definition addPet :: "pet list \<Rightarrow> pet \<Rightarrow> petOperationResponse \<times> pet list" where
  "addPet pets newPet =
     (let nameFilteredPets =
        filter (\<lambda>existingPet. toUpperCase (name existingPet) = toUpperCase (name newPet)) pets
      in if 0 < length nameFilteredPets
         then (\<lparr>success = False, message = Some ''Pet names must be unique''\<rparr>, pets)
         else (\<lparr>success = True, message = None\<rparr>, pets @ [newPet]))"

definition updatePet :: "pet list \<Rightarrow> pet \<Rightarrow> petOperationResponse \<times> pet list" where
  "updatePet pets updatedPet =
     (let newPets = map (\<lambda>pet. if pet_id pet = pet_id updatedPet then updatedPet else pet) pets
      in (\<lparr>success = True, message = None\<rparr>, newPets))"

definition deletePet :: "pet list \<Rightarrow> string \<Rightarrow> pet list" where
  "deletePet pets i = filter (\<lambda>pet. pet_id pet \<noteq> i) pets"

definition searchPets :: "pet list \<Rightarrow> string \<Rightarrow> pet list" where
  "searchPets pets searchName =
     filter (\<lambda>pet. js_includes (toUpperCase (name pet)) (toUpperCase searchName)) pets"

subsection \<open>The context value and the hook\<close>

text \<open>
  The value the provider puts into the context (\<open>PetContextType\<close>, lines 4-10): the
  current list and the four operations, each closed over that list. An operation
  returns its response together with the list it hands to \<open>setPets\<close>.
\<close>

record petContextType =
  ctx_pets :: "pet list"
  ctx_addPet :: "pet \<Rightarrow> petOperationResponse \<times> pet list"
  ctx_updatePet :: "pet \<Rightarrow> petOperationResponse \<times> pet list"
  ctx_deletePet :: "string \<Rightarrow> pet list"
  ctx_searchPets :: "string \<Rightarrow> pet list"

text \<open>\<open>createContext<PetContextType | undefined>(undefined)\<close>: the default value.\<close>

definition PetContext :: "petContextType option" where
  "PetContext = None"

text \<open>The value \<open>PetProvider\<close> renders its children with, for its state \<open>pets\<close>.\<close>

definition PetProvider :: "pet list \<Rightarrow> petContextType" where
  "PetProvider pets =
     \<lparr>ctx_pets = pets, ctx_addPet = addPet pets, ctx_updatePet = updatePet pets,
      ctx_deletePet = deletePet pets, ctx_searchPets = searchPets pets\<rparr>"

text \<open>
  \<open>useContext(PetContext)\<close> gives the value of the nearest provider above the caller
  (\<open>Some\<close> of it), or the default when there is none; \<open>usePetContext\<close> throws on
  \<open>undefined\<close>, the thrown \<open>Error\<close> being the left value.
\<close>

definition useContext_PetContext :: "petContextType option \<Rightarrow> petContextType option" where
  "useContext_PetContext nearest = (case nearest of Some v \<Rightarrow> Some v | None \<Rightarrow> PetContext)"

datatype js_error = Error string

definition usePetContext :: "petContextType option \<Rightarrow> js_error + petContextType" where
  "usePetContext nearest =
     (case useContext_PetContext nearest of
        None \<Rightarrow> Inl (Error ''usePetContext must be used within a PetProvider'')
      | Some context \<Rightarrow> Inr context)"

subsection \<open>The context's interface as operations\<close>

datatype registry_op = AddPet pet | UpdatePet pet | DeletePet string

text \<open>\<open>deletePet\<close> returns \<open>void\<close>: its response is \<open>None\<close>.\<close>

fun registry_apply :: "pet list \<Rightarrow> registry_op \<Rightarrow> petOperationResponse option \<times> pet list" where
  "registry_apply pets (AddPet p) = (let (r, pets') = addPet pets p in (Some r, pets'))"
| "registry_apply pets (UpdatePet p) = (let (r, pets') = updatePet pets p in (Some r, pets'))"
| "registry_apply pets (DeletePet i) = (None, deletePet pets i)"

subsection \<open>Invariants\<close>

definition names_unique :: "pet list \<Rightarrow> bool" where
  "names_unique pets = distinct (map (\<lambda>p. toUpperCase (name p)) pets)"

definition ids_distinct :: "pet list \<Rightarrow> bool" where
  "ids_distinct pets = distinct (map pet_id pets)"

subsection \<open>Abstract registry\<close>

type_synonym abs_registry = "string \<rightharpoonup> pet"

definition pets_map :: "pet list \<Rightarrow> abs_registry" where
  "pets_map pets = keyed_map pet_id pets"

definition spec_add :: "abs_registry \<Rightarrow> pet \<Rightarrow> abs_registry option" where
  "spec_add m p =
     (if \<exists>q\<in>ran m. toUpperCase (name q) = toUpperCase (name p) then None
      else Some (m(pet_id p \<mapsto> p)))"

definition spec_update :: "abs_registry \<Rightarrow> pet \<Rightarrow> abs_registry" where
  "spec_update m p = (if pet_id p \<in> dom m then m(pet_id p \<mapsto> p) else m)"

definition spec_delete :: "abs_registry \<Rightarrow> string \<Rightarrow> abs_registry" where
  "spec_delete m i = m(i := None)"

fun spec_apply :: "abs_registry \<Rightarrow> registry_op \<Rightarrow> abs_registry option" where
  "spec_apply m (AddPet p) = spec_add m p"
| "spec_apply m (UpdatePet p) = Some (spec_update m p)"
| "spec_apply m (DeletePet i) = Some (spec_delete m i)"

text \<open>The caller supplies the id of a new record; the contract asks for a fresh one.\<close>

fun op_fresh :: "pet list \<Rightarrow> registry_op \<Rightarrow> bool" where
  "op_fresh pets (AddPet p) = (pet_id p \<notin> pet_id ` set pets)"
| "op_fresh pets (UpdatePet p) = True"
| "op_fresh pets (DeletePet i) = True"

subsection \<open>The scenario records of the design (section 8)\<close>

definition pet_Rex :: pet where
  "pet_Rex = \<lparr>pet_id = ''1'', name = ''Rex'', age = ''3'', petCategory = None, pet_image = None,
              description = Some ''friendly''\<rparr>"

definition pet_rex_dup :: pet where
  "pet_rex_dup = \<lparr>pet_id = ''2'', name = ''rex'', age = ''1'', petCategory = None, pet_image = None,
                  description = Some ''x''\<rparr>"

definition pet_Milo :: pet where
  "pet_Milo = \<lparr>pet_id = ''2'', name = ''Milo'', age = ''2'', petCategory = None, pet_image = None,
               description = Some ''x''\<rparr>"

lemmas scenario_pets = pet_Rex_def pet_rex_dup_def pet_Milo_def

subsection \<open>Lemmas on the operations\<close>

lemma addPet_eq:
  "addPet pets p =
     (if \<exists>q\<in>set pets. toUpperCase (name q) = toUpperCase (name p)
      then (\<lparr>success = False, message = Some ''Pet names must be unique''\<rparr>, pets)
      else (\<lparr>success = True, message = None\<rparr>, pets @ [p]))"
  by (simp add: addPet_def Let_def filter_empty_conv)

lemma updatePet_ids [simp]: "map pet_id (snd (updatePet pets u)) = map pet_id pets"
  by (simp add: updatePet_def)

lemma ids_distinct_addPet:
  "ids_distinct pets \<Longrightarrow> pet_id p \<notin> pet_id ` set pets \<Longrightarrow> ids_distinct (snd (addPet pets p))"
  by (simp add: addPet_eq ids_distinct_def)

lemma ids_distinct_updatePet: "ids_distinct pets \<Longrightarrow> ids_distinct (snd (updatePet pets p))"
  by (simp add: ids_distinct_def)

lemma ids_distinct_deletePet: "ids_distinct pets \<Longrightarrow> ids_distinct (deletePet pets i)"
  by (simp add: ids_distinct_def deletePet_def distinct_map_filter)

lemma updatePet_refines: "pets_map (snd (updatePet pets u)) = spec_update (pets_map pets) u"
  by (simp add: pets_map_def spec_update_def updatePet_def keyed_map_replace_key)

lemma deletePet_refines: "pets_map (deletePet pets i) = spec_delete (pets_map pets) i"
  by (simp add: pets_map_def spec_delete_def deletePet_def keyed_map_filter_key)

lemma addPet_refines:
  assumes "ids_distinct pets" and "pet_id p \<notin> pet_id ` set pets"
  shows "(case spec_add (pets_map pets) p of
            None \<Rightarrow> fst (addPet pets p) = \<lparr>success = False, message = Some ''Pet names must be unique''\<rparr>
                    \<and> snd (addPet pets p) = pets
          | Some m \<Rightarrow> success (fst (addPet pets p)) \<and> pets_map (snd (addPet pets p)) = m)"
proof -
  have ran: "ran (keyed_map pet_id pets) = set pets"
    using assms(1) by (simp add: ids_distinct_def ran_keyed_map)
  show ?thesis
    using assms(2)
    by (auto simp: spec_add_def ran addPet_eq pets_map_def keyed_map_fresh_snoc)
qed

subsection \<open>Properties of the registry\<close>

text \<open>
  C1. \<open>addPet\<close> keeps the registry free of case-insensitive name clashes: if no two
  records' names upper-case to the same string before the call, none do after it,
  whatever record is offered.
\<close>

theorem addPet_names_unique:
  "names_unique pets \<Longrightarrow> names_unique (snd (addPet pets p))"
  by (auto simp: addPet_eq names_unique_def)

theorem addPet_names_unique_witness:
  "names_unique [pet_Rex] \<and> names_unique (snd (addPet [pet_Rex] pet_Milo))"
proof -
  have h: "names_unique [pet_Rex]" by (simp add: names_unique_def)
  show ?thesis using h addPet_names_unique [OF h, of pet_Milo] by simp
qed

text \<open>
  C2. A rejected \<open>addPet\<close> changes nothing: when the response reports failure, the
  state passed on is the old list (same records, same order) and the message is
  "Pet names must be unique".
\<close>

theorem addPet_rejects_pure:
  "\<not> success (fst (addPet pets p)) \<Longrightarrow>
   snd (addPet pets p) = pets \<and> message (fst (addPet pets p)) = Some ''Pet names must be unique''"
  by (auto simp: addPet_eq split: if_splits)

theorem addPet_rejects_pure_witness:
  "\<not> success (fst (addPet [pet_Rex] pet_rex_dup)) \<and> snd (addPet [pet_Rex] pet_rex_dup) = [pet_Rex] \<and>
   message (fst (addPet [pet_Rex] pet_rex_dup)) = Some ''Pet names must be unique''"
proof -
  have h: "\<not> success (fst (addPet [pet_Rex] pet_rex_dup))"
    by (simp add: addPet_eq scenario_pets upper_char_def)
  show ?thesis using h addPet_rejects_pure [OF h] by simp
qed

text \<open>
  C3. \<open>addPet\<close> succeeds exactly when no existing name upper-cases to the upper-casing
  of the candidate's name, and then appends the candidate at the end of the list and
  returns no message.
\<close>

theorem addPet_succeeds_iff:
  "success (fst (addPet pets p)) = (\<forall>q\<in>set pets. toUpperCase (name q) \<noteq> toUpperCase (name p)) \<and>
   (success (fst (addPet pets p)) \<longrightarrow>
      snd (addPet pets p) = pets @ [p] \<and> message (fst (addPet pets p)) = None)"
  by (auto simp: addPet_eq)

theorem addPet_succeeds_iff_witness:
  "success (fst (addPet [pet_Rex] pet_Milo)) \<and> snd (addPet [pet_Rex] pet_Milo) = [pet_Rex, pet_Milo]"
  using addPet_succeeds_iff [of "[pet_Rex]" pet_Milo] by (simp add: scenario_pets upper_char_def)

text \<open>
  C4. \<open>updatePet\<close> is keyed by id: it always reports success, keeps the length, and
  at every position puts the candidate where the old record has the candidate's id and
  leaves the old record everywhere else (so order is kept).
\<close>

theorem updatePet_by_id:
  "updatePet pets u = (r, pets') \<Longrightarrow>
   success r \<and> length pets' = length pets \<and>
   (\<forall>i<length pets. pets' ! i = (if pet_id (pets ! i) = pet_id u then u else pets ! i))"
  by (auto simp: updatePet_def)

theorem updatePet_by_id_witness:
  "success (fst (updatePet [pet_Rex, pet_Milo] (pet_Rex\<lparr>age := ''4''\<rparr>))) \<and>
   length (snd (updatePet [pet_Rex, pet_Milo] (pet_Rex\<lparr>age := ''4''\<rparr>))) = 2 \<and>
   snd (updatePet [pet_Rex, pet_Milo] (pet_Rex\<lparr>age := ''4''\<rparr>)) ! 0 = pet_Rex\<lparr>age := ''4''\<rparr> \<and>
   snd (updatePet [pet_Rex, pet_Milo] (pet_Rex\<lparr>age := ''4''\<rparr>)) ! 1 = pet_Milo"
  using updatePet_by_id [of "[pet_Rex, pet_Milo]" "pet_Rex\<lparr>age := ''4''\<rparr>"
      "fst (updatePet [pet_Rex, pet_Milo] (pet_Rex\<lparr>age := ''4''\<rparr>))"
      "snd (updatePet [pet_Rex, pet_Milo] (pet_Rex\<lparr>age := ''4''\<rparr>))"]
  by (simp add: scenario_pets)

text \<open>
  C5. \<open>searchPets\<close> returns the records whose upper-cased name contains the
  upper-cased query as a contiguous substring, in registry order (a subsequence of the
  registry), and the empty query returns every record.
\<close>

theorem searchPets_correct:
  "(p \<in> set (searchPets pets q)) = (p \<in> set pets \<and> sublist (toUpperCase q) (toUpperCase (name p)))
   \<and> searchPets pets [] = pets \<and> subseq (searchPets pets q) pets"
  by (simp add: searchPets_def js_includes_iff_sublist)

text \<open>
  C6. The registry operations refine the abstract map registry: on a registry with
  distinct ids and an added record with a fresh id, every operation keeps ids distinct
  and moves the id map exactly as \<open>spec_apply\<close> does; a rejected add leaves the list
  unchanged and answers the uniqueness failure.
\<close>

theorem registry_apply_refines:
  assumes "ids_distinct pets" and "op_fresh pets op"
  shows "ids_distinct (snd (registry_apply pets op)) \<and>
         (case spec_apply (pets_map pets) op of
            None \<Rightarrow> snd (registry_apply pets op) = pets \<and>
                    fst (registry_apply pets op) =
                      Some \<lparr>success = False, message = Some ''Pet names must be unique''\<rparr>
          | Some m \<Rightarrow> pets_map (snd (registry_apply pets op)) = m)"
proof (cases op)
  case (AddPet p)
  have "ids_distinct (snd (addPet pets p))"
    using assms AddPet by (simp add: ids_distinct_addPet)
  moreover have "case spec_add (pets_map pets) p of
            None \<Rightarrow> fst (addPet pets p) = \<lparr>success = False, message = Some ''Pet names must be unique''\<rparr>
                    \<and> snd (addPet pets p) = pets
          | Some m \<Rightarrow> success (fst (addPet pets p)) \<and> pets_map (snd (addPet pets p)) = m"
    using assms AddPet by (simp add: addPet_refines)
  ultimately show ?thesis
    using AddPet by (auto simp: split_beta split: option.splits)
next
  case (UpdatePet p)
  with assms show ?thesis
    by (simp add: split_beta ids_distinct_updatePet updatePet_refines)
next
  case (DeletePet i)
  with assms show ?thesis
    by (simp add: ids_distinct_deletePet deletePet_refines)
qed

theorem registry_apply_refines_witness:
  "ids_distinct [pet_Rex] \<and> op_fresh [pet_Rex] (AddPet pet_Milo) \<and>
   pets_map (snd (registry_apply [pet_Rex] (AddPet pet_Milo))) = [''1'' \<mapsto> pet_Rex, ''2'' \<mapsto> pet_Milo]"
proof -
  have h1: "ids_distinct [pet_Rex]" by (simp add: ids_distinct_def)
  have h2: "op_fresh [pet_Rex] (AddPet pet_Milo)" by (simp add: scenario_pets)
  have "spec_apply (pets_map [pet_Rex]) (AddPet pet_Milo) = Some [''1'' \<mapsto> pet_Rex, ''2'' \<mapsto> pet_Milo]"
    by (simp add: spec_add_def pets_map_def keyed_map_def scenario_pets upper_char_def)
  then show ?thesis
    using h1 h2 registry_apply_refines [OF h1 h2] by simp
qed

text \<open>
  C7. Deleting a record frees its name: in a registry with unique names, a candidate
  whose name upper-cases like that of a listed record is rejected, and after
  \<open>deletePet\<close> with that record's id it is accepted.
\<close>

theorem deletePet_frees_name:
  assumes "names_unique pets" and "p \<in> set pets" and "toUpperCase (name q) = toUpperCase (name p)"
  shows "\<not> success (fst (addPet pets q)) \<and> success (fst (addPet (deletePet pets (pet_id p)) q))"
proof -
  have inj: "inj_on (\<lambda>r. toUpperCase (name r)) (set pets)"
    using assms(1) by (simp add: names_unique_def distinct_map)
  have "\<forall>r\<in>set (deletePet pets (pet_id p)). toUpperCase (name r) \<noteq> toUpperCase (name q)"
  proof
    fix r assume r: "r \<in> set (deletePet pets (pet_id p))"
    then have "r \<in> set pets" and "r \<noteq> p" by (auto simp: deletePet_def)
    with inj assms(2,3) show "toUpperCase (name r) \<noteq> toUpperCase (name q)"
      by (metis inj_on_eq_iff)
  qed
  with assms(2,3) show ?thesis by (auto simp: addPet_eq)
qed

theorem deletePet_frees_name_witness:
  "\<not> success (fst (addPet [pet_Rex, pet_Milo] pet_rex_dup)) \<and>
   success (fst (addPet (deletePet [pet_Rex, pet_Milo] (pet_id pet_Rex)) pet_rex_dup))"
proof -
  have h1: "names_unique [pet_Rex, pet_Milo]" by (simp add: names_unique_def scenario_pets upper_char_def)
  have h2: "pet_Rex \<in> set [pet_Rex, pet_Milo]" by simp
  have h3: "toUpperCase (name pet_rex_dup) = toUpperCase (name pet_Rex)"
    by (simp add: scenario_pets upper_char_def)
  show ?thesis using deletePet_frees_name [OF h1 h2 h3] .
qed

text \<open>
  C8. \<open>updatePet\<close> performs no name check: on a registry with unique names and
  distinct ids, updating a listed id keeps the names unique exactly when the new name
  upper-cases differently from the name of every other record. So an update can break
  the uniqueness that \<open>addPet\<close> keeps.
\<close>

theorem updatePet_names_unique_iff:
  assumes "names_unique pets" and "ids_distinct pets" and "pet_id u \<in> pet_id ` set pets"
  shows "names_unique (snd (updatePet pets u)) =
         (\<forall>q\<in>set pets. pet_id q \<noteq> pet_id u \<longrightarrow> toUpperCase (name q) \<noteq> toUpperCase (name u))"
proof -
  obtain x where x: "x \<in> set pets" "pet_id x = pet_id u" using assms(3) by auto
  then obtain xs ys where pets: "pets = xs @ x # ys" by (auto simp: in_set_conv_decomp)
  have other: "\<forall>q\<in>set xs \<union> set ys. pet_id q \<noteq> pet_id u"
    using assms(2) x(2) by (fastforce simp: ids_distinct_def pets image_iff)
  have keep: "map (\<lambda>pet. if pet_id pet = pet_id u then u else pet) zs = zs"
    if "set zs \<subseteq> set xs \<union> set ys" for zs
    using that other by (induction zs) auto
  have upd: "snd (updatePet pets u) = xs @ u # ys"
    using keep [of xs] keep [of ys] x(2) by (simp add: updatePet_def pets)
  have rest: "{q \<in> set pets. pet_id q \<noteq> pet_id u} = set xs \<union> set ys"
    using other x(2) by (auto simp: pets)
  have nu: "distinct (map (\<lambda>p. toUpperCase (name p)) xs) \<and> distinct (map (\<lambda>p. toUpperCase (name p)) ys) \<and>
            (\<lambda>p. toUpperCase (name p)) ` set xs \<inter> (\<lambda>p. toUpperCase (name p)) ` set ys = {}"
    using assms(1) by (simp add: names_unique_def pets)
  have "names_unique (snd (updatePet pets u)) =
        (toUpperCase (name u) \<notin> (\<lambda>p. toUpperCase (name p)) ` (set xs \<union> set ys))"
    unfolding upd using nu by (auto simp: names_unique_def)
  also have "\<dots> = (\<forall>q\<in>set xs \<union> set ys. toUpperCase (name q) \<noteq> toUpperCase (name u))"
  proof
    assume h: "toUpperCase (name u) \<notin> (\<lambda>p. toUpperCase (name p)) ` (set xs \<union> set ys)"
    show "\<forall>q\<in>set xs \<union> set ys. toUpperCase (name q) \<noteq> toUpperCase (name u)"
    proof
      fix q assume "q \<in> set xs \<union> set ys"
      then have "toUpperCase (name q) \<in> (\<lambda>p. toUpperCase (name p)) ` (set xs \<union> set ys)" by (rule imageI)
      with h show "toUpperCase (name q) \<noteq> toUpperCase (name u)" by auto
    qed
  qed auto
  also have "\<dots> = (\<forall>q\<in>{q \<in> set pets. pet_id q \<noteq> pet_id u}. toUpperCase (name q) \<noteq> toUpperCase (name u))"
    by (simp only: rest)
  finally show ?thesis by auto
qed

theorem updatePet_names_unique_iff_witness:
  "\<not> names_unique (snd (updatePet [pet_Rex, pet_Milo] (pet_Milo\<lparr>name := ''rex''\<rparr>)))"
proof -
  have h1: "names_unique [pet_Rex, pet_Milo]" by (simp add: names_unique_def scenario_pets upper_char_def)
  have h2: "ids_distinct [pet_Rex, pet_Milo]" by (simp add: ids_distinct_def scenario_pets)
  have h3: "pet_id (pet_Milo\<lparr>name := ''rex''\<rparr>) \<in> pet_id ` set [pet_Rex, pet_Milo]" by simp
  have "\<not> (\<forall>q\<in>set [pet_Rex, pet_Milo]. pet_id q \<noteq> pet_id (pet_Milo\<lparr>name := ''rex''\<rparr>) \<longrightarrow>
           toUpperCase (name q) \<noteq> toUpperCase (name (pet_Milo\<lparr>name := ''rex''\<rparr>)))"
    by (simp add: scenario_pets upper_char_def)
  then show ?thesis using updatePet_names_unique_iff [OF h1 h2 h3] by simp
qed

text \<open>
  C9. The name comparison is JavaScript's full upper-casing, under which the German
  sharp s (U+00DF) upper-cases to "SS": whatever the rest of the names, a candidate
  that writes U+00DF where a listed name has "ss" is rejected and the registry is
  unchanged, although the two names differ in length.
\<close>

theorem addPet_sharp_s_collision:
  assumes "q \<in> set pets" and "name q = xs @ ''ss'' @ ys" and "name p = xs @ [CHR 0xDF] @ ys"
  shows "length (name q) = Suc (length (name p)) \<and>
         addPet pets p = (\<lparr>success = False, message = Some ''Pet names must be unique''\<rparr>, pets)"
proof -
  have eq: "toUpperCase (name q) = toUpperCase (name p)"
    using assms(2,3) by (simp add: upper_char_def)
  have ex: "\<exists>q\<in>set pets. toUpperCase (name q) = toUpperCase (name p)"
    using assms(1) eq by blast
  have "addPet pets p = (\<lparr>success = False, message = Some ''Pet names must be unique''\<rparr>, pets)"
    by (simp only: addPet_eq ex if_True)
  moreover have "length (name q) = Suc (length (name p))" using assms(2,3) by simp
  ultimately show ?thesis by simp
qed

theorem addPet_sharp_s_collision_witness:
  "addPet [pet_Rex\<lparr>name := ''strasse''\<rparr>] (pet_Milo\<lparr>name := ''stra'' @ [CHR 0xDF] @ ''e''\<rparr>) =
   (\<lparr>success = False, message = Some ''Pet names must be unique''\<rparr>, [pet_Rex\<lparr>name := ''strasse''\<rparr>])"
  using addPet_sharp_s_collision [of "pet_Rex\<lparr>name := ''strasse''\<rparr>" "[pet_Rex\<lparr>name := ''strasse''\<rparr>]"
      "''stra''" "''e''" "pet_Milo\<lparr>name := ''stra'' @ [CHR 0xDF] @ ''e''\<rparr>"]
  by simp

end
