(* ===== verification/Main_Screen.thy ===== *)
theory Main_Screen
  imports Pet_Context
begin

text \<open>
  The form and list screen of \<open>src/screens/MainScreen.tsx\<close> and its composition with
  the registry. The screen's \<open>useState\<close> hooks are the fields of the record
  \<open>screen\<close> (\<open>name\<close>, \<open>age\<close>, \<open>description\<close> become \<open>form_name\<close>,
  \<open>form_age\<close>, \<open>form_description\<close>, as \<open>name\<close>, \<open>age\<close>, \<open>description\<close> are
  already the fields of a pet). A user action is an \<open>event\<close>; \<open>screen_event\<close> runs
  the handler of the control it presses, reading the registry state and returning the
  new registry state and screen state, or \<open>None\<close> when the control is not on the
  screen in this state (the cancel button outside edit mode, an edit or delete button
  of a record that is not listed, a breed button that is not rendered).
  \<open>app_step\<close> then runs the effect on \<open>editingPet\<close> (lines 42-46), which clears the
  form whenever \<open>editingPet\<close> changes to \<open>undefined\<close>.

  React applies the state updates of one handler together before the next render, and
  every handler reads the state of the last render; so one event is one atomic step of
  the model. \<open>Date.now()\<close> is the argument of \<open>Submit\<close>.
\<close>

subsection \<open>State\<close>

record fieldErrorMessages =
  name_error :: string
  age_error :: string
  description_error :: string

record screen =
  form_name :: string
  form_age :: string
  form_description :: string
  species :: string
  breed :: string
  searchName :: string
  editingPet :: "pet option"
  fieldErrors :: fieldErrorMessages
  formErrorMessage :: "string option"

definition no_field_errors :: fieldErrorMessages where
  "no_field_errors = \<lparr>name_error = '''', age_error = '''', description_error = ''''\<rparr>"

definition MainScreen_init :: screen where
  "MainScreen_init =
     \<lparr>form_name = '''', form_age = '''', form_description = '''', species = '''', breed = '''',
      searchName = '''', editingPet = None, fieldErrors = no_field_errors, formErrorMessage = None\<rparr>"

definition SpeciesOptions :: "string list" where
  "SpeciesOptions = map category PetCategories"

subsection \<open>Handlers\<close>

definition clearFields :: "screen \<Rightarrow> screen" where
  "clearFields s = s\<lparr>form_name := '''', form_age := '''', form_description := ''''\<rparr>"

text \<open>\<open>validateFields\<close> builds the messages field by field and stores them.\<close>

definition validateFields :: "screen \<Rightarrow> bool \<times> screen" where
  "validateFields s =
     (let (m1, v1) = (if form_name s = '''' then (no_field_errors\<lparr>name_error := ''Name field is required.''\<rparr>, False)
                      else (no_field_errors, True));
          (m2, v2) = (if form_age s = '''' then (m1\<lparr>age_error := ''Age field is required.''\<rparr>, False)
                      else (m1, v1));
          (m3, v3) = (if form_description s = '''' then (m2\<lparr>description_error := ''Description field is required.''\<rparr>, False)
                      else (m2, v2))
      in (v3, s\<lparr>fieldErrors := m3\<rparr>))"

text \<open>
  \<open>editingPet?.id || Date.now().toString()\<close>: the id of the record being edited
  unless there is none or it is the empty string.
\<close>

definition submit_id :: "nat \<Rightarrow> pet option \<Rightarrow> string" where
  "submit_id now ep =
     (case ep of
        None \<Rightarrow> nat_to_string now
      | Some p \<Rightarrow> if pet_id p = '''' then nat_to_string now else pet_id p)"

definition handleSubmit :: "nat \<Rightarrow> pet list \<Rightarrow> screen \<Rightarrow> pet list \<times> screen" where
  "handleSubmit now pets s =
     (let (valid, s1) = validateFields s
      in if \<not> valid then (pets, s1)
         else
           (let petData = \<lparr>pet_id = submit_id now (editingPet s), name = form_name s, age = form_age s,
                           petCategory = None, pet_image = None, description = Some (form_description s)\<rparr>
            in case editingPet s of
                 Some _ \<Rightarrow>
                   (let (res, pets') = updatePet pets petData;
                        s2 = (if success res then s1\<lparr>editingPet := None\<rparr> else s1)
                    in (pets', s2\<lparr>formErrorMessage := message res\<rparr>))
               | None \<Rightarrow>
                   (let (res, pets') = addPet pets petData;
                        s2 = (if success res then clearFields s1 else s1)
                    in (pets', s2\<lparr>formErrorMessage := message res\<rparr>))))"

text \<open>
  The breed buttons: the breeds of the first category named like the species.
  Indexing an empty filter result gives \<open>undefined\<close>, and reading \<open>.breeds\<close> of it
  throws; \<open>?.map\<close> over absent breeds renders nothing.
\<close>

definition breed_options :: "string \<Rightarrow> js_error + string list" where
  "breed_options sp =
     (case filter (\<lambda>c. category c = sp) PetCategories of
        [] \<Rightarrow> Inl (Error ''TypeError: Cannot read properties of undefined (reading 'breeds')'')
      | c # _ \<Rightarrow> Inr (case breeds c of None \<Rightarrow> [] | Some bs \<Rightarrow> bs))"

text \<open>The list shown: all records for an empty search box, the search result otherwise.\<close>

definition displayed_pets :: "pet list \<Rightarrow> screen \<Rightarrow> pet list" where
  "displayed_pets pets s = (if searchName s = '''' then pets else searchPets pets (searchName s))"

text \<open>The record \<open>handleSubmit\<close> builds (\<open>petData\<close>, lines 50-55).\<close>

definition submit_record :: "nat \<Rightarrow> screen \<Rightarrow> pet" where
  "submit_record now s = \<lparr>pet_id = submit_id now (editingPet s), name = form_name s, age = form_age s,
                           petCategory = None, pet_image = None, description = Some (form_description s)\<rparr>"

subsection \<open>Events and the step\<close>

datatype event =
    ChangeName string
  | ChangeAge string
  | ChangeDescription string
  | PressSpecies string
  | PressBreed string
  | Submit nat
  | PressCancel
  | PressEdit pet
  | PressDelete pet
  | ChangeSearch string

fun screen_event :: "pet list \<Rightarrow> screen \<Rightarrow> event \<Rightarrow> (pet list \<times> screen) option" where
  "screen_event pets s (ChangeName v) = Some (pets, s\<lparr>form_name := v\<rparr>)"
| "screen_event pets s (ChangeAge v) = Some (pets, s\<lparr>form_age := strip_non_digits v\<rparr>)"
| "screen_event pets s (ChangeDescription v) = Some (pets, s\<lparr>form_description := v\<rparr>)"
| "screen_event pets s (PressSpecies sp) =
     (if sp \<in> set SpeciesOptions then Some (pets, s\<lparr>species := sp\<rparr>) else None)"
| "screen_event pets s (PressBreed b) =
     (if species s = '''' then None
      else case breed_options (species s) of
             Inl _ \<Rightarrow> None
           | Inr bs \<Rightarrow> if b \<in> set bs then Some (pets, s\<lparr>breed := b\<rparr>) else None)"
| "screen_event pets s (Submit now) = Some (handleSubmit now pets s)"
| "screen_event pets s PressCancel =
     (if editingPet s = None then None else Some (pets, s\<lparr>editingPet := None\<rparr>))"
| "screen_event pets s (PressEdit item) =
     (if item \<in> set (displayed_pets pets s)
      then Some (pets, s\<lparr>editingPet := Some item, form_name := name item, form_age := age item,
                         form_description := (case description item of None \<Rightarrow> '''' | Some d \<Rightarrow> d)\<rparr>)
      else None)"
| "screen_event pets s (PressDelete item) =
     (if item \<in> set (displayed_pets pets s) then Some (deletePet pets (pet_id item), s) else None)"
| "screen_event pets s (ChangeSearch v) = Some (pets, s\<lparr>searchName := v\<rparr>)"

text \<open>The effect on \<open>editingPet\<close>: it runs when the value changed, and clears the form when it is now \<open>undefined\<close>.\<close>

definition editingPet_effect :: "pet option \<Rightarrow> screen \<Rightarrow> screen" where
  "editingPet_effect old s = (if editingPet s \<noteq> old \<and> editingPet s = None then clearFields s else s)"

record app =
  provider_pets :: "pet list"
  main_screen :: screen

definition app_init :: app where
  "app_init = \<lparr>provider_pets = PetProvider_init, main_screen = MainScreen_init\<rparr>"

definition app_step :: "app \<Rightarrow> event \<Rightarrow> app option" where
  "app_step a e =
     (case screen_event (provider_pets a) (main_screen a) e of
        None \<Rightarrow> None
      | Some (pets', s') \<Rightarrow>
          Some \<lparr>provider_pets = pets', main_screen = editingPet_effect (editingPet (main_screen a)) s'\<rparr>)"

fun app_run :: "app \<Rightarrow> event list \<Rightarrow> app option" where
  "app_run a [] = Some a"
| "app_run a (e # es) = (case app_step a e of None \<Rightarrow> None | Some a' \<Rightarrow> app_run a' es)"

subsection \<open>Lemmas on the handlers\<close>

lemma validateFields_eq:
  "validateFields s =
     (form_name s \<noteq> '''' \<and> form_age s \<noteq> '''' \<and> form_description s \<noteq> '''',
      s\<lparr>fieldErrors :=
         \<lparr>name_error = (if form_name s = '''' then ''Name field is required.'' else ''''),
          age_error = (if form_age s = '''' then ''Age field is required.'' else ''''),
          description_error = (if form_description s = '''' then ''Description field is required.'' else '''')\<rparr>\<rparr>)"
  by (simp add: validateFields_def no_field_errors_def Let_def)

lemma handleSubmit_invalid:
  "\<not> (form_name s \<noteq> '''' \<and> form_age s \<noteq> '''' \<and> form_description s \<noteq> '''') \<Longrightarrow>
   handleSubmit now pets s = (pets, snd (validateFields s))"
  by (simp add: handleSubmit_def validateFields_eq)

lemma handleSubmit_valid_add:
  "form_name s \<noteq> '''' \<Longrightarrow> form_age s \<noteq> '''' \<Longrightarrow> form_description s \<noteq> '''' \<Longrightarrow> editingPet s = None \<Longrightarrow>
   handleSubmit now pets s =
     (snd (addPet pets (submit_record now s)),
      (if success (fst (addPet pets (submit_record now s))) then clearFields (snd (validateFields s))
       else snd (validateFields s))\<lparr>formErrorMessage := message (fst (addPet pets (submit_record now s)))\<rparr>)"
  by (simp add: handleSubmit_def submit_record_def validateFields_eq split_beta Let_def)

lemma handleSubmit_valid_update:
  "form_name s \<noteq> '''' \<Longrightarrow> form_age s \<noteq> '''' \<Longrightarrow> form_description s \<noteq> '''' \<Longrightarrow> editingPet s = Some ep \<Longrightarrow>
   handleSubmit now pets s =
     (snd (updatePet pets (submit_record now s)),
      (snd (validateFields s))\<lparr>editingPet := None, formErrorMessage := None\<rparr>)"
  by (simp add: handleSubmit_def submit_record_def updatePet_def validateFields_eq)

lemmas handleSubmit_cases = handleSubmit_invalid handleSubmit_valid_add handleSubmit_valid_update

lemma handleSubmit_records:
  "p \<in> set (fst (handleSubmit now pets s)) \<Longrightarrow> p \<in> set pets \<or>
     (p = submit_record now s \<and> form_name s \<noteq> '''' \<and> form_age s \<noteq> '''' \<and> form_description s \<noteq> '''')"
  using set_replace_subset [of pet_id "pet_id (submit_record now s)" "submit_record now s" pets]
  by (cases "form_name s \<noteq> '''' \<and> form_age s \<noteq> '''' \<and> form_description s \<noteq> ''''"; cases "editingPet s")
     (auto simp: handleSubmit_cases addPet_eq updatePet_def split: if_splits)

lemma handleSubmit_screen:
  "species (snd (handleSubmit now pets s)) = species s \<and>
   breed (snd (handleSubmit now pets s)) = breed s \<and>
   (form_age (snd (handleSubmit now pets s)) = form_age s \<or> form_age (snd (handleSubmit now pets s)) = '''')"
  by (cases "form_name s \<noteq> '''' \<and> form_age s \<noteq> '''' \<and> form_description s \<noteq> ''''"; cases "editingPet s")
     (auto simp: handleSubmit_cases validateFields_eq clearFields_def)

lemma handleSubmit_ids:
  "map pet_id (fst (handleSubmit now pets s)) = map pet_id pets \<or>
   (editingPet s = None \<and> map pet_id (fst (handleSubmit now pets s)) = map pet_id pets @ [nat_to_string now])"
  by (cases "form_name s \<noteq> '''' \<and> form_age s \<noteq> '''' \<and> form_description s \<noteq> ''''"; cases "editingPet s")
     (auto simp: handleSubmit_cases addPet_eq submit_record_def submit_id_def)

lemma displayed_subset: "set (displayed_pets pets s) \<subseteq> set pets"
  by (auto simp: displayed_pets_def searchPets_def)

lemma editingPet_effect_cases:
  "editingPet_effect old s = s \<or> editingPet_effect old s = clearFields s"
  by (simp add: editingPet_effect_def)

lemma app_step_SomeE:
  assumes "app_step a e = Some a'"
  obtains pets' s' where "screen_event (provider_pets a) (main_screen a) e = Some (pets', s')"
    and "a' = \<lparr>provider_pets = pets', main_screen = editingPet_effect (editingPet (main_screen a)) s'\<rparr>"
  using assms by (auto simp: app_step_def split: option.splits)

lemma eq_char_of_iff: "(c = char_of n) = (take_bit 8 n = (of_char c :: nat))"
  by (metis char_of_eq_iff)

text \<open>The facts that evaluate a run of the application on concrete events.\<close>

lemmas run_simps = app_step_def validateFields_eq submit_id_def handleSubmit_def
  addPet_eq updatePet_def deletePet_def displayed_pets_def editingPet_effect_def clearFields_def
  app_init_def MainScreen_init_def PetProvider_init_def strip_non_digits_def is_ascii_digit_def
  nat_to_string.simps digit_char_def char_of_eq_iff eq_char_of_iff upper_char_def searchPets_def
  no_field_errors_def

lemmas species_simps = SpeciesOptions_def PetCategories_def breed_options_def

subsection \<open>Properties of the screen\<close>

text \<open>
  C15. A rejected add keeps what the user typed (design, section 7): in add mode with
  all required fields filled and a name that upper-cases like an existing one,
  \<open>handleSubmit\<close> leaves the registry and every form field as they were, clears the
  field messages and shows "Pet names must be unique".
\<close>

theorem submit_add_rejected_keeps_form:
  assumes "editingPet s = None" and "form_name s \<noteq> ''''" and "form_age s \<noteq> ''''"
    and "form_description s \<noteq> ''''"
    and "\<exists>q\<in>set pets. toUpperCase (name q) = toUpperCase (form_name s)"
  shows "handleSubmit now pets s =
           (pets, s\<lparr>fieldErrors := no_field_errors, formErrorMessage := Some ''Pet names must be unique''\<rparr>)"
  using assms
  by (simp add: handleSubmit_valid_add addPet_eq submit_record_def validateFields_eq no_field_errors_def)

theorem submit_add_rejected_keeps_form_witness:
  "handleSubmit 7 [pet_Rex] (MainScreen_init\<lparr>form_name := ''rex'', form_age := ''1'', form_description := ''x''\<rparr>) =
     ([pet_Rex], MainScreen_init\<lparr>form_name := ''rex'', form_age := ''1'', form_description := ''x'',
                                formErrorMessage := Some ''Pet names must be unique''\<rparr>)"
proof -
  let ?s = "MainScreen_init\<lparr>form_name := ''rex'', form_age := ''1'', form_description := ''x''\<rparr>"
  have h: "\<exists>q\<in>set [pet_Rex]. toUpperCase (name q) = toUpperCase (form_name ?s)"
    by (simp add: scenario_pets upper_char_def)
  show ?thesis
    using submit_add_rejected_keeps_form [of ?s "[pet_Rex]" 7] h
    by (simp add: MainScreen_init_def)
qed

text \<open>
  C16. A submit with an empty required field changes neither the registry nor any form
  field nor the form message: it only sets the message of each empty field (so a
  message of an earlier rejected add stays on the screen).
\<close>

theorem submit_invalid_keeps_state:
  assumes "form_name s = '''' \<or> form_age s = '''' \<or> form_description s = ''''"
  shows "handleSubmit now pets s =
           (pets, s\<lparr>fieldErrors :=
              \<lparr>name_error = (if form_name s = '''' then ''Name field is required.'' else ''''),
               age_error = (if form_age s = '''' then ''Age field is required.'' else ''''),
               description_error = (if form_description s = '''' then ''Description field is required.'' else '''')\<rparr>\<rparr>)"
  using assms by (auto simp: handleSubmit_invalid validateFields_eq)

theorem submit_invalid_keeps_state_witness:
  "handleSubmit 7 [pet_Rex] (MainScreen_init\<lparr>form_name := ''Milo'', formErrorMessage := Some ''Pet names must be unique''\<rparr>) =
     ([pet_Rex], MainScreen_init\<lparr>form_name := ''Milo'', formErrorMessage := Some ''Pet names must be unique'',
        fieldErrors := \<lparr>name_error = '''', age_error = ''Age field is required.'',
                        description_error = ''Description field is required.''\<rparr>\<rparr>)"
  using submit_invalid_keeps_state
          [of "MainScreen_init\<lparr>form_name := ''Milo'', formErrorMessage := Some ''Pet names must be unique''\<rparr>"]
  by (simp add: MainScreen_init_def)

text \<open>
  C17. Cancel leaves edit mode (design, section 4.1): pressing "Cancel Update" ends edit
  mode, and the effect on \<open>editingPet\<close> clears the three text fields; the registry is
  untouched.
\<close>

theorem cancel_leaves_edit_mode:
  "app_step a PressCancel = Some a' \<Longrightarrow>
   editingPet (main_screen a') = None \<and> form_name (main_screen a') = '''' \<and> form_age (main_screen a') = '''' \<and>
   form_description (main_screen a') = '''' \<and> provider_pets a' = provider_pets a"
  by (auto simp: app_step_def editingPet_effect_def clearFields_def split: if_splits)

theorem cancel_leaves_edit_mode_witness:
  "\<exists>a'. app_step \<lparr>provider_pets = [pet_Rex], main_screen = MainScreen_init\<lparr>editingPet := Some pet_Rex, form_name := ''Rex''\<rparr>\<rparr>
          PressCancel = Some a' \<and> editingPet (main_screen a') = None \<and> form_name (main_screen a') = ''''"
proof -
  let ?a = "\<lparr>provider_pets = [pet_Rex], main_screen = MainScreen_init\<lparr>editingPet := Some pet_Rex, form_name := ''Rex''\<rparr>\<rparr>"
  have h: "app_step ?a PressCancel = Some (the (app_step ?a PressCancel))"
    by (simp add: app_step_def)
  show ?thesis using h cancel_leaves_edit_mode [OF h] by blast
qed

text \<open>
  C18. A valid submit in edit mode updates the registry by id with the form's values,
  ends edit mode, clears the text fields and shows no form message.
\<close>

theorem update_leaves_edit_mode:
  assumes "editingPet (main_screen a) = Some ep" and "form_name (main_screen a) \<noteq> ''''"
    and "form_age (main_screen a) \<noteq> ''''" and "form_description (main_screen a) \<noteq> ''''"
  shows "\<exists>a'. app_step a (Submit now) = Some a' \<and>
           editingPet (main_screen a') = None \<and> form_name (main_screen a') = '''' \<and>
           form_age (main_screen a') = '''' \<and> form_description (main_screen a') = '''' \<and>
           formErrorMessage (main_screen a') = None \<and>
           provider_pets a' = snd (updatePet (provider_pets a) (submit_record now (main_screen a)))"
  using assms
  by (simp add: app_step_def handleSubmit_valid_update editingPet_effect_def clearFields_def validateFields_eq)

theorem update_leaves_edit_mode_witness:
  "\<exists>a'. app_step \<lparr>provider_pets = [pet_Rex],
                   main_screen = MainScreen_init\<lparr>editingPet := Some pet_Rex, form_name := ''Rex'',
                                                  form_age := ''4'', form_description := ''older now''\<rparr>\<rparr>
          (Submit 9) = Some a' \<and> editingPet (main_screen a') = None \<and>
        provider_pets a' = [pet_Rex\<lparr>age := ''4'', description := Some ''older now''\<rparr>]"
proof -
  let ?a = "\<lparr>provider_pets = [pet_Rex],
             main_screen = MainScreen_init\<lparr>editingPet := Some pet_Rex, form_name := ''Rex'',
                                            form_age := ''4'', form_description := ''older now''\<rparr>\<rparr>"
  obtain a' where a': "app_step ?a (Submit 9) = Some a'" "editingPet (main_screen a') = None"
    and p: "provider_pets a' = snd (updatePet (provider_pets ?a) (submit_record 9 (main_screen ?a)))"
    using update_leaves_edit_mode [of ?a pet_Rex 9] by auto
  have "snd (updatePet (provider_pets ?a) (submit_record 9 (main_screen ?a))) =
        [pet_Rex\<lparr>age := ''4'', description := Some ''older now''\<rparr>]"
    by (simp add: updatePet_def submit_record_def submit_id_def scenario_pets)
  with a' p show ?thesis by auto
qed

text \<open>
  C19. A valid submit in add mode whose name clashes with no existing name appends the
  form's record (with the id from the clock) to the registry, clears the text fields,
  stays in add mode and shows no form message.
\<close>

theorem add_success_clears_form:
  assumes "editingPet (main_screen a) = None" and "form_name (main_screen a) \<noteq> ''''"
    and "form_age (main_screen a) \<noteq> ''''" and "form_description (main_screen a) \<noteq> ''''"
    and "\<forall>q\<in>set (provider_pets a). toUpperCase (name q) \<noteq> toUpperCase (form_name (main_screen a))"
  shows "\<exists>a'. app_step a (Submit now) = Some a' \<and>
           editingPet (main_screen a') = None \<and> form_name (main_screen a') = '''' \<and>
           form_age (main_screen a') = '''' \<and> form_description (main_screen a') = '''' \<and>
           formErrorMessage (main_screen a') = None \<and>
           provider_pets a' = provider_pets a @ [submit_record now (main_screen a)]"
  using assms
  by (simp add: app_step_def handleSubmit_valid_add addPet_eq submit_record_def editingPet_effect_def
                clearFields_def validateFields_eq)

theorem add_success_clears_form_witness:
  "\<exists>a'. app_step \<lparr>provider_pets = [pet_Rex],
                   main_screen = MainScreen_init\<lparr>form_name := ''Milo'', form_age := ''2'', form_description := ''x''\<rparr>\<rparr>
          (Submit 2) = Some a' \<and> form_name (main_screen a') = '''' \<and>
        provider_pets a' = [pet_Rex, pet_Milo]"
proof -
  let ?a = "\<lparr>provider_pets = [pet_Rex],
             main_screen = MainScreen_init\<lparr>form_name := ''Milo'', form_age := ''2'', form_description := ''x''\<rparr>\<rparr>"
  have h: "\<forall>q\<in>set (provider_pets ?a). toUpperCase (name q) \<noteq> toUpperCase (form_name (main_screen ?a))"
    by (simp add: scenario_pets upper_char_def)
  obtain a' where a': "app_step ?a (Submit 2) = Some a'" "form_name (main_screen a') = ''''"
    and p: "provider_pets a' = provider_pets ?a @ [submit_record 2 (main_screen ?a)]"
    using add_success_clears_form [of ?a 2] h by (auto simp: MainScreen_init_def)
  have "provider_pets ?a @ [submit_record 2 (main_screen ?a)] = [pet_Rex, pet_Milo]"
    by (simp add: submit_record_def submit_id_def scenario_pets nat_to_string.simps digit_char_def
                  char_of_eq_iff eq_char_of_iff MainScreen_init_def)
  with a' p show ?thesis by auto
qed

text \<open>
  C20. The list on the screen holds exactly the registry's records whose upper-cased
  name contains the upper-cased text of the search box (all of them for an empty box).
\<close>

theorem displayed_pets_search:
  "(p \<in> set (displayed_pets pets s)) =
   (p \<in> set pets \<and> sublist (toUpperCase (searchName s)) (toUpperCase (name p)))"
  by (auto simp: displayed_pets_def searchPets_def js_includes_iff_sublist)

lemma app_run_append:
  "app_run a (es1 @ es2) = (case app_run a es1 of None \<Rightarrow> None | Some b \<Rightarrow> app_run b es2)"
  by (induction es1 arbitrary: a) (auto split: option.split)

text \<open>
  C33. The list's data source \<open>searchName === '' ? pets : searchPets(searchName)\<close>
  is equivalent to calling \<open>searchPets\<close> unconditionally: the empty query is contained in
  every upper-cased name, so the short cut changes nothing that is shown.
\<close>

theorem displayed_pets_eq_searchPets: "displayed_pets pets s = searchPets pets (searchName s)"
  by (simp add: displayed_pets_def searchPets_def js_includes_iff_sublist)

text \<open>
  C34. In add mode the id of the submitted record is the decimal text of the clock value
  it read: it reads back as that value and is written as \<open>toString\<close> writes numbers
  (digits only, no leading zero).
\<close>

theorem submit_id_roundtrip:
  "editingPet s = None \<Longrightarrow>
   string_to_nat (pet_id (submit_record now s)) = now \<and> decimal_canonical (pet_id (submit_record now s))"
  by (simp add: submit_record_def submit_id_def string_to_nat_nat_to_string nat_to_string_canonical)

theorem submit_id_roundtrip_witness:
  "string_to_nat (pet_id (submit_record 1700000000123 MainScreen_init)) = 1700000000123 \<and>
   decimal_canonical (pet_id (submit_record 1700000000123 MainScreen_init))"
  using submit_id_roundtrip [of MainScreen_init 1700000000123] by (simp add: MainScreen_init_def)

text \<open>
  C36. While \<open>Date.now()\<close> stays within the range of ECMAScript time values
  (at most 8.64e15 ms), an id the screen assigns in add mode has at most 16 characters.
\<close>

theorem submit_id_length_bound:
  "now \<le> 8640000000000000 \<Longrightarrow> editingPet s = None \<Longrightarrow> length (pet_id (submit_record now s)) \<le> 16"
  by (simp add: submit_record_def submit_id_def nat_to_string_length_le)

theorem submit_id_length_bound_witness:
  "length (pet_id (submit_record 1700000000123 MainScreen_init)) \<le> 16"
  using submit_id_length_bound [of 1700000000123 MainScreen_init] by (simp add: MainScreen_init_def)

end
