(* ===== verification/Main_Screen_View.thy ===== *)
theory Main_Screen_View
  imports Main_Screen
begin

text \<open>
  What \<open>MainScreen\<close> renders (\<open>src/screens/MainScreen.tsx\<close>, lines 71-98 and
  132-269) and its style sheet (lines 272-351). The JSX tree is a value of the nested
  datatype \<open>node\<close>: \<open>View\<close>, \<open>Text\<close> (its children are strings, joined into one),
  \<open>TextInput\<close> (the field it edits, its value and its placeholder),
  \<open>TouchableOpacity\<close> (the control whose \<open>onPress\<close> it carries), \<open>FlatList\<close> (the
  keys its \<open>keyExtractor\<close> gives and the rendered items) and \<open>Raw\<close>, a bare string
  child, which is what \<open>s && <Text/>\<close> renders when \<open>s\<close> is the empty string.
  A style is a list of references to the sheet or inline objects. Props that only
  affect layout (\<open>multiline\<close>, \<open>numberOfLines\<close>, \<open>keyboardType\<close>) are left out.
  Rendering throws when the breed lookup does; the thrown error is the left value.
\<close>

subsection \<open>Style sheet\<close>

datatype style_value = Num int | Str string

type_synonym style = "(string \<times> style_value) list"

datatype style_ref = Sheet string | Inline style

definition styles :: "(string \<times> style) list" where
  "styles =
     [(''container'', [(''flex'', Num 1), (''padding'', Num 16), (''marginTop'', Num 50)]),
      (''errorMessage'', [(''color'', Str ''red'')]),
      (''formContainer'', [(''padding'', Num 16), (''marginTop'', Num 16)]),
      (''input'', [(''borderWidth'', Num 1), (''borderColor'', Str ''#ccc''), (''padding'', Num 8),
                   (''borderRadius'', Num 5)]),
      (''inputContainer'', [(''display'', Str ''flex''), (''flexDirection'', Str ''column''), (''gap'', Num 2),
                            (''marginBottom'', Num 16)]),
      (''textArea'', [(''height'', Num 100), (''textAlignVertical'', Str ''top'')]),
      (''headerText'', [(''display'', Str ''flex''), (''textAlign'', Str ''center''),
                        (''marginHorizontal'', Str ''auto''), (''fontSize'', Num 24)]),
      (''button'', [(''backgroundColor'', Str ''#4CAF50''), (''padding'', Num 16), (''borderRadius'', Num 5)]),
      (''speciesButton'', [(''backgroundColor'', Str ''#dddddd''), (''padding'', Num 8), (''borderRadius'', Num 5)]),
      (''cancelButton'', [(''backgroundColor'', Str ''#f44336''), (''padding'', Num 16), (''borderRadius'', Num 5)]),
      (''buttonText'', [(''color'', Str ''white''), (''textAlign'', Str ''center'')]),
      (''listContainer'', [(''flex'', Num 1), (''marginTop'', Num 16)]),
      (''petItem'', [(''padding'', Num 16), (''borderBottomWidth'', Num 1), (''borderBottomColor'', Str ''#ccc'')]),
      (''buttonContainer'', [(''flexDirection'', Str ''row''), (''justifyContent'', Str ''flex-end''),
                             (''marginTop'', Num 8)]),
      (''editButton'', [(''backgroundColor'', Str ''#2196F3''), (''padding'', Num 8), (''borderRadius'', Num 5),
                        (''marginRight'', Num 8)]),
      (''deleteButton'', [(''backgroundColor'', Str ''#f44336''), (''padding'', Num 8), (''borderRadius'', Num 5)])]"

subsection \<open>The rendered tree\<close>

datatype control = CSpecies string | CBreed string | CSubmit | CCancel | CEdit pet | CDelete pet

datatype input_field = FName | FAge | FDescription | FSearch

datatype node =
    View "style_ref list" "node list"
  | Text "style_ref list" string
  | TextInput "style_ref list" input_field string string
  | TouchableOpacity "style_ref list" control "node list"
  | FlatList "string list" "node list"
  | Raw string

text \<open>\<open>s && n\<close> for a string \<open>s\<close>: the empty string is falsy and is rendered itself.\<close>

definition js_and_str :: "string \<Rightarrow> node \<Rightarrow> node list" where
  "js_and_str s n = (if s = '''' then [Raw ''''] else [n])"

definition renderPetItem :: "pet \<Rightarrow> node" where
  "renderPetItem item =
     View [Sheet ''petItem'']
       ([Text [] (''Name: '' @ name item), Text [] (''Age: '' @ age item)] @
        (case description item of None \<Rightarrow> [] | Some d \<Rightarrow> js_and_str d (Text [] (''Description: '' @ d))) @
        [View [Sheet ''buttonContainer'']
           [TouchableOpacity [Sheet ''editButton''] (CEdit item) [Text [] ''Edit''],
            TouchableOpacity [Sheet ''deleteButton''] (CDelete item) [Text [] ''Delete'']]])"

text \<open>One of the three labelled text fields of the form (lines 138-188).\<close>

definition field_block ::
  "string \<Rightarrow> style_ref list \<Rightarrow> input_field \<Rightarrow> string \<Rightarrow> string \<Rightarrow> string \<Rightarrow> node" where
  "field_block label st f v placeholder err =
     View [Sheet ''inputContainer'']
       ([Text [] label, TextInput st f v placeholder] @ js_and_str err (Text [Sheet ''errorMessage''] err))"

text \<open>The breed buttons (lines 203-221), rendered under the species buttons once a species is set.\<close>

definition breed_section :: "string \<Rightarrow> js_error + node list" where
  "breed_section sp =
     (if sp = '''' then Inr [Raw '''']
      else case breed_options sp of
             Inl e \<Rightarrow> Inl e
           | Inr bs \<Rightarrow> Inr [View [Sheet ''inputContainer'']
                              (Text [] ''Pet species'' #
                               map (\<lambda>b. TouchableOpacity [Sheet ''speciesButton''] (CBreed b) [Text [] b]) bs)])"

text \<open>
  The tree of lines 132-269 once the breed section has been evaluated to
  \<open>breed_nodes\<close>.
\<close>

definition MainScreen_tree :: "pet list \<Rightarrow> screen \<Rightarrow> node list \<Rightarrow> node" where
  "MainScreen_tree pets s breed_nodes =
     (View [Sheet ''container'']
       [Text [Sheet ''headerText''] (if editingPet s \<noteq> None then ''Updating a Pet'' else ''Create a New Pet''),
        View [Sheet ''formContainer'']
          ([field_block ''Pet name *'' [Sheet ''input''] FName (form_name s) ''Pet Name''
              (name_error (fieldErrors s)),
            field_block ''Pet age (in years) *'' [Sheet ''input''] FAge (form_age s) ''Pet Age''
              (age_error (fieldErrors s)),
            field_block ''Pet description *'' [Sheet ''input'', Sheet ''textArea''] FDescription
              (form_description s) ''Pet Description'' (description_error (fieldErrors s)),
            View [Sheet ''inputContainer'']
              (Text [] ''Pet species'' #
               map (\<lambda>sp. TouchableOpacity [Sheet ''speciesButton''] (CSpecies sp) [Text [] sp]) SpeciesOptions)] @
           breed_nodes @
           [Text [Inline [(''marginBottom'', Num 8)]] ''* Indicates a required field'',
            TouchableOpacity [Sheet ''button''] CSubmit
              [Text [Sheet ''buttonText''] (if editingPet s \<noteq> None then ''Update Pet'' else ''Add Pet'')]] @
           (case editingPet s of
              None \<Rightarrow> []
            | Some _ \<Rightarrow> [TouchableOpacity [Sheet ''cancelButton''] CCancel
                           [Text [Sheet ''buttonText''] ''Cancel Update'']]) @
           (case formErrorMessage s of
              None \<Rightarrow> []
            | Some m \<Rightarrow> js_and_str m (Text [Sheet ''errorMessage''] m))),
        View [Sheet ''listContainer'']
          [View [Sheet ''inputContainer'',
                 Inline [(''flexDirection'', Str ''row''), (''alignItems'', Str ''center''),
                         (''alignSelf'', Str ''flex-end''), (''maxHeight'', Num 36), (''minWidth'', Num 96)]]
             [Text [] ''Search by name:'',
              TextInput [Sheet ''input''] FSearch (searchName s) ''Enter your pet's name''],
           FlatList (map pet_id (displayed_pets pets s)) (map renderPetItem (displayed_pets pets s))]])"

text \<open>Rendering evaluates the breed section, which may throw, and builds the tree.\<close>

definition MainScreen_render :: "pet list \<Rightarrow> screen \<Rightarrow> js_error + node" where
  "MainScreen_render pets s =
     (case breed_section (species s) of
        Inl e \<Rightarrow> Inl e
      | Inr breed_nodes \<Rightarrow> Inr (MainScreen_tree pets s breed_nodes))"

subsection \<open>Reading the tree\<close>

text \<open>A fold over every node of a tree, parents before children.\<close>

primrec collect :: "(node \<Rightarrow> 'a list) \<Rightarrow> node \<Rightarrow> 'a list"
  and collect_list :: "(node \<Rightarrow> 'a list) \<Rightarrow> node list \<Rightarrow> 'a list" where
  "collect f (View st ns) = f (View st ns) @ collect_list f ns"
| "collect f (Text st t) = f (Text st t)"
| "collect f (TextInput st i v p) = f (TextInput st i v p)"
| "collect f (TouchableOpacity st c ns) = f (TouchableOpacity st c ns) @ collect_list f ns"
| "collect f (FlatList ks ns) = f (FlatList ks ns) @ collect_list f ns"
| "collect f (Raw t) = f (Raw t)"
| "collect_list f [] = []"
| "collect_list f (n # ns) = collect f n @ collect_list f ns"

fun node_control :: "node \<Rightarrow> control list" where
  "node_control (TouchableOpacity _ c _) = [c]"
| "node_control _ = []"

definition sheet_names :: "style_ref list \<Rightarrow> string list" where
  "sheet_names st = concat (map (\<lambda>r. case r of Sheet x \<Rightarrow> [x] | Inline _ \<Rightarrow> []) st)"

fun node_sheets :: "node \<Rightarrow> string list" where
  "node_sheets (View st _) = sheet_names st"
| "node_sheets (Text st _) = sheet_names st"
| "node_sheets (TextInput st _ _ _) = sheet_names st"
| "node_sheets (TouchableOpacity st _ _) = sheet_names st"
| "node_sheets _ = []"

fun node_raw :: "node \<Rightarrow> string list" where
  "node_raw (Raw t) = [t]"
| "node_raw _ = []"

fun node_text :: "node \<Rightarrow> string list" where
  "node_text (Text _ t) = [t]"
| "node_text _ = []"

fun node_keys :: "node \<Rightarrow> string list list" where
  "node_keys (FlatList ks _) = [ks]"
| "node_keys _ = []"

subsection \<open>Lemmas on the tree\<close>

lemma collect_list_concat [simp]: "collect_list f ns = concat (map (collect f) ns)"
  by (induction ns) simp_all

lemma js_and_str_collect [simp]:
  "concat (map (collect f) (js_and_str s n)) = (if s = '''' then f (Raw '''') else collect f n)"
  by (simp add: js_and_str_def)

lemma MainScreen_render_Inr:
  "(MainScreen_render pets s = Inr v) = (\<exists>ns. breed_section (species s) = Inr ns \<and> v = MainScreen_tree pets s ns)"
  by (auto simp: MainScreen_render_def split: sum.splits)

lemma breed_options_Inl_iff:
  "(breed_options sp = Inl e) =
   (sp \<notin> set SpeciesOptions \<and> e = Error ''TypeError: Cannot read properties of undefined (reading 'breeds')'')"
proof -
  have "(filter (\<lambda>c. category c = sp) PetCategories = []) = (sp \<notin> set SpeciesOptions)"
    by (auto simp: SpeciesOptions_def filter_empty_conv)
  then show ?thesis by (auto simp: breed_options_def split: list.splits)
qed

lemma renderPetItem_controls [simp]: "collect node_control (renderPetItem p) = [CEdit p, CDelete p]"
  by (cases "description p") (simp_all add: renderPetItem_def)

lemma field_block_controls [simp]: "collect node_control (field_block l st f v ph e) = []"
  by (simp add: field_block_def)

lemma breed_section_controls:
  "breed_section sp = Inr ns \<Longrightarrow>
   set (concat (map (collect node_control) ns)) =
     {CBreed b | b. sp \<noteq> '''' \<and> (\<exists>bs. breed_options sp = Inr bs \<and> b \<in> set bs)}"
  by (auto simp: breed_section_def split: if_splits sum.splits)

lemma tree_controls:
  "collect node_control (MainScreen_tree pets s ns) =
     map CSpecies SpeciesOptions @ concat (map (collect node_control) ns) @ [CSubmit] @
     (if editingPet s = None then [] else [CCancel]) @
     concat (map (\<lambda>p. [CEdit p, CDelete p]) (displayed_pets pets s))"
  by (cases "formErrorMessage s"; cases "editingPet s") (auto simp: MainScreen_tree_def comp_def)

lemma renderPetItem_raw: "t \<in> set (collect node_raw (renderPetItem p)) \<Longrightarrow> t = ''''"
  by (cases "description p") (auto simp: renderPetItem_def js_and_str_def split: if_splits)

lemma breed_section_raw:
  "breed_section sp = Inr ns \<Longrightarrow> t \<in> set (concat (map (collect node_raw) ns)) \<Longrightarrow> t = ''''"
  by (auto simp: breed_section_def split: if_splits sum.splits)

lemma renderPetItem_sheets [simp]:
  "collect node_sheets (renderPetItem p) = [''petItem'', ''buttonContainer'', ''editButton'', ''deleteButton'']"
  by (cases "description p") (simp_all add: renderPetItem_def js_and_str_def sheet_names_def)

lemma field_block_sheets [simp]:
  "collect node_sheets (field_block l st f v ph e) =
     ''inputContainer'' # sheet_names st @ (if e = '''' then [] else [''errorMessage''])"
  by (simp add: field_block_def js_and_str_def sheet_names_def)

lemma breed_section_sheets:
  "breed_section sp = Inr ns \<Longrightarrow>
   list_all (\<lambda>x. x \<in> set (map fst styles)) (concat (map (collect node_sheets) ns))"
  by (auto simp: breed_section_def sheet_names_def styles_def list_all_iff split: if_splits sum.splits)

lemma tree_sheets:
  "list_all (\<lambda>x. x \<in> set (map fst styles)) (concat (map (collect node_sheets) ns)) \<Longrightarrow>
   list_all (\<lambda>x. x \<in> set (map fst styles)) (collect node_sheets (MainScreen_tree pets s ns))"
  by (simp add: MainScreen_tree_def js_and_str_def sheet_names_def styles_def list_all_concat_lists
                list.pred_map list.pred_True comp_def split: option.split)

lemma renderPetItem_keys [simp]: "collect node_keys (renderPetItem p) = []"
  by (cases "description p") (simp_all add: renderPetItem_def js_and_str_def)

lemma breed_section_keys: "breed_section sp = Inr ns \<Longrightarrow> concat (map (collect node_keys) ns) = []"
  by (auto simp: breed_section_def split: if_splits sum.splits)

lemma field_block_keys [simp]: "collect node_keys (field_block l st f v ph e) = []"
  by (simp add: field_block_def)

lemma tree_keys:
  "collect node_keys (MainScreen_tree pets s ns) =
     concat (map (collect node_keys) ns) @ [map pet_id (displayed_pets pets s)]"
  by (cases "formErrorMessage s"; cases "editingPet s") (simp_all add: MainScreen_tree_def comp_def)

lemma render_keys:
  "MainScreen_render pets s = Inr v \<Longrightarrow> collect node_keys v = [map pet_id (displayed_pets pets s)]"
  by (auto simp: MainScreen_render_Inr tree_keys dest!: breed_section_keys)

lemma breed_section_Inl_iff:
  "(breed_section sp = Inl e) =
   (sp \<noteq> '''' \<and> sp \<notin> set SpeciesOptions \<and>
    e = Error ''TypeError: Cannot read properties of undefined (reading 'breeds')'')"
proof (cases "breed_options sp")
  case (Inl e')
  with breed_options_Inl_iff [of sp e'] show ?thesis by (auto simp: breed_section_def)
next
  case (Inr bs)
  with breed_options_Inl_iff [of sp] have "sp \<in> set SpeciesOptions" by auto
  with Inr show ?thesis by (auto simp: breed_section_def)
qed

lemma render_Inr_of_species:
  assumes "species s = '''' \<or> species s \<in> set SpeciesOptions"
  shows "\<exists>v. MainScreen_render pets s = Inr v"
proof (cases "breed_section (species s)")
  case (Inl e)
  with breed_section_Inl_iff [of "species s" e] assms show ?thesis by auto
next
  case (Inr ns)
  then show ?thesis by (simp add: MainScreen_render_def)
qed

lemma renderPetItem_name_text: "''Name: '' @ name p \<in> set (collect node_text (renderPetItem p))"
  by (cases "description p") (simp_all add: renderPetItem_def js_and_str_def)

lemma tree_shows_items:
  "p \<in> set (displayed_pets pets s) \<Longrightarrow>
   set (collect f (renderPetItem p)) \<subseteq> set (collect f (MainScreen_tree pets s ns))"
  by (auto simp: MainScreen_tree_def)

lemmas render_simps = MainScreen_render_def MainScreen_tree_def breed_section_def renderPetItem_def
  field_block_def js_and_str_def

subsection \<open>Properties of the rendered screen\<close>

text \<open>
  C23. A successful add shows up in the list: in add mode, with the three fields
  filled, a name that clashes with no listed name, an empty search box and a species
  from the table (or none), submitting leads to a screen that renders, whose
  \<open>FlatList\<close> keys are the old ids followed by the clock value's decimal text, and
  which shows the new record's name.
\<close>

theorem add_then_listed:
  assumes ed: "editingPet (main_screen a) = None"
    and f: "form_name (main_screen a) \<noteq> ''''" "form_age (main_screen a) \<noteq> ''''"
      "form_description (main_screen a) \<noteq> ''''"
    and fresh: "\<forall>q\<in>set (provider_pets a). toUpperCase (name q) \<noteq> toUpperCase (form_name (main_screen a))"
    and sn: "searchName (main_screen a) = ''''"
    and sp: "species (main_screen a) = '''' \<or> species (main_screen a) \<in> set SpeciesOptions"
  shows "\<exists>a' v. app_step a (Submit now) = Some a' \<and>
           MainScreen_render (provider_pets a') (main_screen a') = Inr v \<and>
           collect node_keys v = [map pet_id (provider_pets a) @ [nat_to_string now]] \<and>
           ''Name: '' @ form_name (main_screen a) \<in> set (collect node_text v)"
proof -
  let ?r = "submit_record now (main_screen a)"
  have nm: "name ?r = form_name (main_screen a)" and idr: "pet_id ?r = nat_to_string now"
    using ed by (simp_all add: submit_record_def submit_id_def)
  let ?s' = "(clearFields (snd (validateFields (main_screen a))))\<lparr>formErrorMessage := None\<rparr>"
  have step: "app_step a (Submit now) = Some \<lparr>provider_pets = provider_pets a @ [?r], main_screen = ?s'\<rparr>"
    using ed f fresh nm
    by (simp add: app_step_def handleSubmit_valid_add addPet_eq editingPet_effect_def clearFields_def
                  validateFields_eq)
  have sn': "searchName ?s' = ''''" and sp': "species ?s' = species (main_screen a)"
    using sn by (simp_all add: clearFields_def validateFields_eq)
  obtain v where v: "MainScreen_render (provider_pets a @ [?r]) ?s' = Inr v"
    using render_Inr_of_species [of ?s' "provider_pets a @ [?r]"] sp sp' by auto
  have disp: "displayed_pets (provider_pets a @ [?r]) ?s' = provider_pets a @ [?r]"
    using sn' by (simp add: displayed_pets_def)
  have keys: "collect node_keys v = [map pet_id (provider_pets a) @ [nat_to_string now]]"
    using render_keys [OF v] disp idr by simp
  obtain ns where ns: "breed_section (species ?s') = Inr ns" and vt: "v = MainScreen_tree (provider_pets a @ [?r]) ?s' ns"
    using v by (auto simp: MainScreen_render_Inr)
  have "''Name: '' @ form_name (main_screen a) \<in> set (collect node_text v)"
    using tree_shows_items [of ?r "provider_pets a @ [?r]" ?s' node_text ns] renderPetItem_name_text [of ?r]
          disp nm vt by auto
  with step v keys have "app_step a (Submit now) = Some \<lparr>provider_pets = provider_pets a @ [?r], main_screen = ?s'\<rparr> \<and>
      MainScreen_render (provider_pets \<lparr>provider_pets = provider_pets a @ [?r], main_screen = ?s'\<rparr>)
        (main_screen \<lparr>provider_pets = provider_pets a @ [?r], main_screen = ?s'\<rparr>) = Inr v \<and>
      collect node_keys v = [map pet_id (provider_pets a) @ [nat_to_string now]] \<and>
      ''Name: '' @ form_name (main_screen a) \<in> set (collect node_text v)"
    by simp
  then show ?thesis by (intro exI)
qed

theorem add_then_listed_witness:
  "\<exists>a' v. app_step \<lparr>provider_pets = [pet_Rex],
                     main_screen = MainScreen_init\<lparr>form_name := ''Milo'', form_age := ''2'', form_description := ''x''\<rparr>\<rparr>
            (Submit 2) = Some a' \<and>
          MainScreen_render (provider_pets a') (main_screen a') = Inr v \<and>
          collect node_keys v = [[''1'', ''2'']] \<and> ''Name: Milo'' \<in> set (collect node_text v)"
proof -
  let ?a = "\<lparr>provider_pets = [pet_Rex],
             main_screen = MainScreen_init\<lparr>form_name := ''Milo'', form_age := ''2'', form_description := ''x''\<rparr>\<rparr>"
  have fresh: "\<forall>q\<in>set (provider_pets ?a). toUpperCase (name q) \<noteq> toUpperCase (form_name (main_screen ?a))"
    by (simp add: scenario_pets upper_char_def)
  have h: "editingPet (main_screen ?a) = None" "form_name (main_screen ?a) \<noteq> ''''"
    "form_age (main_screen ?a) \<noteq> ''''" "form_description (main_screen ?a) \<noteq> ''''"
    "searchName (main_screen ?a) = ''''"
    "species (main_screen ?a) = '''' \<or> species (main_screen ?a) \<in> set SpeciesOptions"
    by (simp_all add: MainScreen_init_def)
  have ids: "map pet_id (provider_pets ?a) @ [nat_to_string 2] = [''1'', ''2'']"
    by (simp add: scenario_pets nat_to_string.simps digit_char_def char_of_eq_iff)
  show ?thesis
    using add_then_listed [OF h(1-4) fresh h(5,6), of 2] ids by simp
qed

text \<open>
  C24. Rendering throws exactly when a species is set that is not a category of the
  table: then the breed lookup indexes an empty filter result and reading
  \<open>.breeds\<close> of \<open>undefined\<close> raises a \<open>TypeError\<close>.
\<close>

theorem render_error_iff:
  "(MainScreen_render pets s = Inl e) =
   (species s \<noteq> '''' \<and> species s \<notin> set SpeciesOptions \<and>
    e = Error ''TypeError: Cannot read properties of undefined (reading 'breeds')'')"
proof (cases "breed_section (species s)")
  case (Inl e')
  with breed_section_Inl_iff [of "species s" e'] show ?thesis by (auto simp: MainScreen_render_def)
next
  case (Inr ns)
  with breed_section_Inl_iff [of "species s"] have "species s = [] \<or> species s \<in> set SpeciesOptions"
    by auto
  with Inr show ?thesis by (auto simp: MainScreen_render_def)
qed

text \<open>
  C25. The screen never renders a non-empty string outside a \<open>Text\<close> (which React
  Native rejects): the only bare children are the empty strings that \<open>s && ...\<close>
  yields for an empty message, an empty species or an empty description.
\<close>

theorem render_no_bare_text:
  "MainScreen_render pets s = Inr v \<Longrightarrow> \<forall>t\<in>set (collect node_raw v). t = ''''"
proof
  fix t assume r: "MainScreen_render pets s = Inr v" and t: "t \<in> set (collect node_raw v)"
  obtain ns where ns: "breed_section (species s) = Inr ns" and v: "v = MainScreen_tree pets s ns"
    using r by (auto simp: MainScreen_render_Inr)
  show "t = ''''"
    using t breed_section_raw [OF ns] renderPetItem_raw
    by (cases "formErrorMessage s"; cases "editingPet s")
       (auto simp: v MainScreen_tree_def field_block_def js_and_str_def split: if_splits)
qed

theorem render_no_bare_text_witness:
  "\<exists>v. MainScreen_render [] MainScreen_init = Inr v \<and> Raw '''' \<in> set (collect (\<lambda>n. [n]) v) \<and>
       (\<forall>t\<in>set (collect node_raw v). t = '''')"
proof -
  have "\<exists>v. MainScreen_render [] MainScreen_init = Inr v"
    by (rule render_Inr_of_species) (simp add: MainScreen_init_def)
  then obtain v where r: "MainScreen_render [] MainScreen_init = Inr v" ..
  have raw: "Raw '''' \<in> set (collect (\<lambda>n. [n]) v)"
    using r by (auto simp: render_simps MainScreen_init_def no_field_errors_def)
  from r raw render_no_bare_text [OF r] show ?thesis by blast
qed

text \<open>
  C26. Every style the tree refers to by name is defined in the sheet of
  \<open>StyleSheet.create\<close>, in every state that renders.
\<close>

theorem render_styles_defined:
  "MainScreen_render pets s = Inr v \<Longrightarrow> set (collect node_sheets v) \<subseteq> fst ` set styles"
proof -
  assume r: "MainScreen_render pets s = Inr v"
  obtain ns where ns: "breed_section (species s) = Inr ns" and v: "v = MainScreen_tree pets s ns"
    using r by (auto simp: MainScreen_render_Inr)
  have "list_all (\<lambda>x. x \<in> set (map fst styles)) (collect node_sheets v)"
    using tree_sheets [OF breed_section_sheets [OF ns]] by (simp add: v)
  then show ?thesis by (auto simp: list_all_iff)
qed

theorem render_styles_defined_witness:
  "\<exists>v. MainScreen_render [pet_Rex] (MainScreen_init\<lparr>species := ''Cat''\<rparr>) = Inr v \<and>
       set (collect node_sheets v) \<subseteq> fst ` set styles"
proof -
  have "\<exists>v. MainScreen_render [pet_Rex] (MainScreen_init\<lparr>species := ''Cat''\<rparr>) = Inr v"
    by (rule render_Inr_of_species) (simp add: MainScreen_init_def species_simps)
  then obtain v where r: "MainScreen_render [pet_Rex] (MainScreen_init\<lparr>species := ''Cat''\<rparr>) = Inr v" ..
  from r render_styles_defined [OF r] show ?thesis by blast
qed

text \<open>
  C27. The breed buttons come from the table: whenever a species is set and the screen
  renders, the species names a category of \<open>PetCategories\<close> and the breeds offered as
  buttons are exactly that category's breeds (none when it lists none).
\<close>

theorem breed_buttons_of_species:
  assumes r: "MainScreen_render pets s = Inr v" and sp: "species s \<noteq> ''''"
  shows "\<exists>c\<in>set PetCategories. category c = species s \<and>
           {b. CBreed b \<in> set (collect node_control v)} = set (case breeds c of None \<Rightarrow> [] | Some bs \<Rightarrow> bs)"
proof -
  obtain ns where ns: "breed_section (species s) = Inr ns" and v: "v = MainScreen_tree pets s ns"
    using r by (auto simp: MainScreen_render_Inr)
  have "species s \<in> set SpeciesOptions"
    using ns sp breed_section_Inl_iff [of "species s"] by (cases "species s \<in> set SpeciesOptions") auto
  then have dc: "species s = ''Dog'' \<or> species s = ''Cat''" by (simp add: SpeciesOptions_def PetCategories_def)
  obtain c where c: "c \<in> set PetCategories" "category c = species s"
    and bo: "breed_options (species s) = Inr (case breeds c of None \<Rightarrow> [] | Some bs \<Rightarrow> bs)"
  proof (cases "species s = ''Dog''")
    case True
    show thesis by (rule that [of "PetCategories ! 0"]) (simp_all add: True PetCategories_def breed_options_def)
  next
    case False
    with dc have cat: "species s = ''Cat''" by simp
    show thesis by (rule that [of "PetCategories ! 1"]) (simp_all add: cat PetCategories_def breed_options_def)
  qed
  have "{b. CBreed b \<in> set (collect node_control v)} = {b. CBreed b \<in> set (concat (map (collect node_control) ns))}"
    by (auto simp: v tree_controls)
  also have "\<dots> = set (case breeds c of None \<Rightarrow> [] | Some bs \<Rightarrow> bs)"
    using breed_section_controls [OF ns] sp bo by auto
  finally show ?thesis using c by blast
qed

theorem breed_buttons_of_species_witness:
  "\<exists>v. MainScreen_render [] (MainScreen_init\<lparr>species := ''Dog''\<rparr>) = Inr v \<and>
       CBreed ''Pug'' \<in> set (collect node_control v) \<and> CBreed ''Persian'' \<notin> set (collect node_control v)"
proof -
  let ?s = "MainScreen_init\<lparr>species := ''Dog''\<rparr>"
  have "\<exists>v. MainScreen_render [] ?s = Inr v"
    by (rule render_Inr_of_species) (simp add: MainScreen_init_def species_simps)
  then obtain v where r: "MainScreen_render [] ?s = Inr v" ..
  have sp: "species ?s \<noteq> ''''" by simp
  obtain c where c: "c \<in> set PetCategories" "category c = species ?s"
    and b: "{b. CBreed b \<in> set (collect node_control v)} = set (case breeds c of None \<Rightarrow> [] | Some bs \<Rightarrow> bs)"
    using breed_buttons_of_species [OF r sp] by blast
  have "set (case breeds c of None \<Rightarrow> [] | Some bs \<Rightarrow> bs) =
        {''Golden Retriever'', ''German Shepherd'', ''Pug'', ''Other''}"
    using c by (auto simp: PetCategories_def)
  with b have set_eq: "{b. CBreed b \<in> set (collect node_control v)} =
        {''Golden Retriever'', ''German Shepherd'', ''Pug'', ''Other''}" by simp
  have "''Pug'' \<in> {b. CBreed b \<in> set (collect node_control v)}" by (simp only: set_eq) simp
  moreover have "''Persian'' \<notin> {b. CBreed b \<in> set (collect node_control v)}" by (simp only: set_eq) simp
  ultimately have "CBreed ''Pug'' \<in> set (collect node_control v) \<and> CBreed ''Persian'' \<notin> set (collect node_control v)"
    by simp
  with r show ?thesis by blast
qed

end
