(* ===== verification/Spec2Isabelle.thy ===== *)
theory Spec2Isabelle
  imports Main_Screen_View
begin

text \<open>
  \<^bold>\<open>A verification model of the fluent-pet form application.\<close>

  \<^emph>\<open>The program.\<close> A React Native screen for keeping a list of pets in memory.
  \<open>src/context/PetContext.tsx\<close> holds the registry: the provider's state \<open>pets\<close>
  and the operations \<open>addPet\<close> (rejects a name that upper-cases like an existing one),
  \<open>updatePet\<close> (replaces by id), \<open>deletePet\<close> (removes by id) and \<open>searchPets\<close>
  (upper-cased substring match). \<open>src/screens/MainScreen.tsx\<close> is the only client:
  a form (name, age, description, species, breed), an add/edit mode kept in
  \<open>editingPet\<close>, a search box and the list of records with Edit and Delete buttons;
  its handlers call the registry through \<open>usePetContext\<close>. \<open>src/types/index.ts\<close>
  declares the records and \<open>src/constants/index.ts\<close> the species and breed table.

  \<^emph>\<open>The theories.\<close>
  \<^item> \<open>Prelude\<close>: the type of upper-cased strings (UTF-16 code units), the collection
    \<open>app_unfold\<close>, and generic lemmas on filters, key replacement, the map abstraction
    \<open>keyed_map\<close> of a list of keyed records, contiguous sublists and \<open>list_all\<close>.
  \<^item> \<open>JS_String\<close>: the JavaScript builtins the code calls, modelled from ECMAScript on
    Latin-1 strings: \<open>toUpperCase\<close> (per character, U+00DF to "SS", U+00B5 and U+00FF
    out of Latin-1), StringIndexOf and \<open>includes\<close> (\<open>string_index_of\<close>, a loop
    with a measure), the digit filter of the age field, and \<open>Number.toString\<close> on the
    clock (\<open>nat_to_string\<close>). Proved: the index is the least match, \<open>includes\<close> is
    \<open>sublist\<close>, decimal printing round-trips both ways and has \<open>k\<close> digits at most
    below \<open>10^k\<close>, the length bounds of upper-casing.
  \<^item> \<open>Pet_Types\<close>: the records \<open>pet\<close>, \<open>petCategory\<close>, \<open>petOperationResponse\<close>,
    the route type \<open>rootStackParamList\<close> and the table \<open>PetCategories\<close>.
  \<^item> \<open>Pet_Context\<close>: one definition per registry operation, each taking the list its
    closure reads and returning the response and the list it hands to \<open>setPets\<close>;
    the context value \<open>petContextType\<close> that \<open>PetProvider\<close> builds from its state, the
    default \<open>PetContext\<close>, and \<open>usePetContext\<close> with its throw as a left value; the
    context's interface as the datatype \<open>registry_op\<close> with \<open>registry_apply\<close>. The
    abstract contract is a map from ids to records (\<open>spec_add\<close>, \<open>spec_update\<close>,
    \<open>spec_delete\<close>) and \<open>registry_apply_refines\<close> is the simulation. Claims C1-C9.
  \<^item> \<open>Main_Screen\<close>: the screen state \<open>screen\<close> (one field per \<open>useState\<close>),
    \<open>validateFields\<close>, \<open>clearFields\<close>, \<open>handleSubmit\<close>, the breed lookup, the
    list shown, the user's actions as \<open>event\<close>, \<open>screen_event\<close> (the handler of the
    pressed control, \<open>None\<close> when the control is not rendered), the effect on
    \<open>editingPet\<close>, and \<open>app_step\<close>, one step of registry and screen together.
    Claims C15-C20 on submit, cancel and the list shown, C33 (the list's data source is
    plain \<open>searchPets\<close>), C34 and C36 (the id from the clock round-trips and has at
    most 16 digits).
  \<^item> \<open>Main_Screen_View\<close>: what the screen renders, as a tree of the nested datatype
    \<open>node\<close> built by \<open>MainScreen_render\<close> (with \<open>renderPetItem\<close>, the three
    text fields, the breed section that may throw) and the style sheet \<open>styles\<close>; a
    fold \<open>collect\<close> reads controls, style names, bare strings, texts and list keys off
    the tree. Claims C23-C27: a successful add appears at the end of the rendered
    list under the clock id, when rendering throws, no bare text, every style name is
    defined, the breed buttons are the table's breeds of the chosen species.
  \<^item> this theory: the reachable states (\<open>reachable\<close>, from the initial state by
    \<open>app_step\<close>), the states reachable when the submits read strictly increasing
    clock values (\<open>reachable_clock\<close>), the invariants proved by rule induction over
    them, the runs that exhibit the findings, and the possibility of returning to a
    clean screen. Claims C10-C14, C21, C22, C28-C32, C35.

  \<^emph>\<open>Model choices.\<close> One user event is one atomic step: React applies the updates of
  a handler together and the next handler reads the rendered state, so there is no
  interleaving inside a handler. \<open>Date.now()\<close> is the argument of the \<open>Submit\<close>
  event, a \<open>nat\<close> (milliseconds; \<open>toString\<close> is decimal below \<open>10^21\<close>, and
  ECMAScript time values stay at most 8.64e15, which bounds ids to 16 digits).
  Controls that are not on the screen cannot be pressed, which \<open>screen_event\<close>
  expresses by \<open>None\<close>; its guards are the render conditions of the JSX (Cancel only
  in edit mode, breed buttons only for the breeds of the chosen species, Edit and
  Delete only on listed records).
  No loop of the code can run forever: the only loops are over lists, and
  StringIndexOf terminates by its measure; no fuel is needed. The view abstracts the
  rendered JSX to the elements, their style references, the text they show and the
  event each control fires; layout-only props are dropped.

  \<^emph>\<open>What the proofs show.\<close> \<open>addPet\<close> keeps names unique
  up to upper-casing and a rejected add changes nothing (C1-C3);
  \<open>updatePet\<close> is keyed by id (C4); search is upper-cased substring search
  in registry order (C5, C20, C33); the operations implement the map contract (C6);
  deleting a record frees its name for a new add (C7); an update keeps names unique
  exactly when the new name clashes with no other record (C8). Every reachable record is
  well formed (C10), ids are distinct while the clock strictly increases (C11) and so
  are the list's keys (C29), the form keeps its input on a rejected add and leaves edit
  mode on cancel and on update (C15-C19), the breed lookup and the whole render never
  throw in a reachable state (C21, C28, C24), the message fields only hold the code's
  texts (C35), the rendered tree is well formed (C25, C26), a successful add is listed
  under the clock id (C23) and the breed buttons are the species' breeds (C27); from
  every state the user can empty the registry and reset the form within seven events
  more than there are records (C31); clock ids round-trip and are bounded (C34, C36).

  \<^emph>\<open>Findings.\<close> \<open>updatePet\<close> does no name check, so
  duplicate names are reachable (C8, C13); upper-casing equates U+00DF with "SS" (C9);
  two submits in one millisecond create one id twice (C12) and so duplicate list keys
  (C30); an edit of a record deleted meanwhile is dropped while the screen reports
  success (C14); the chosen species and breed are never stored (C10), the breed survives
  a change of species (C22), and a chosen species can never be cleared (C32); the breed
  buttons are labelled "Pet species" (line 207 of \<open>MainScreen.tsx\<close>); a
  stale form message survives an invalid submit (C16); the mapped species and breed
  buttons carry no \<open>key\<close> prop.

  \<^emph>\<open>Not modelled.\<close> Layout-only props (\<open>multiline\<close>, \<open>numberOfLines\<close>,
  \<open>keyboardType\<close>) and how React Native lays out and paints the tree; React's
  reconciliation itself (the model keeps the state and the tree it renders from);
  characters beyond U+00FF; the \<open>App\<close> root, which is not in the repository and is
  modelled from the design as the record \<open>app\<close>; the image field, which no code sets.
\<close>

subsection \<open>Reachable states of the application\<close>

definition record_ok :: "pet \<Rightarrow> bool" where
  "record_ok p =
     (name p \<noteq> '''' \<and> age p \<noteq> '''' \<and> (\<forall>c\<in>set (age p). is_ascii_digit c) \<and>
      description p \<noteq> None \<and> description p \<noteq> Some '''' \<and> petCategory p = None \<and> pet_image p = None)"

definition app_inv :: "app \<Rightarrow> bool" where
  "app_inv a =
     ((\<forall>p\<in>set (provider_pets a). record_ok p) \<and>
      (\<forall>c\<in>set (form_age (main_screen a)). is_ascii_digit c) \<and>
      (species (main_screen a) = '''' \<or> species (main_screen a) \<in> set SpeciesOptions))"

inductive reachable :: "app \<Rightarrow> bool" where
  init: "reachable app_init"
| step: "reachable a \<Longrightarrow> app_step a e = Some a' \<Longrightarrow> reachable a'"

text \<open>
  The clock discipline under which ids are unique: every submit reads a \<open>Date.now()\<close>
  at least the bound, and the bound moves past it, so no two submits read the same
  millisecond.
\<close>

fun clock_ok :: "nat \<Rightarrow> event \<Rightarrow> bool" where
  "clock_ok t (Submit n) = (t \<le> n)"
| "clock_ok t _ = True"

fun clock_after :: "nat \<Rightarrow> event \<Rightarrow> nat" where
  "clock_after t (Submit n) = Suc n"
| "clock_after t _ = t"

inductive reachable_clock :: "nat \<Rightarrow> app \<Rightarrow> bool" where
  init: "reachable_clock 0 app_init"
| step: "reachable_clock t a \<Longrightarrow> app_step a e = Some a' \<Longrightarrow> clock_ok t e \<Longrightarrow>
         reachable_clock (clock_after t e) a'"

fun clock_run_ok :: "nat \<Rightarrow> event list \<Rightarrow> bool" where
  "clock_run_ok t [] = True"
| "clock_run_ok t (e # es) = (clock_ok t e \<and> clock_run_ok (clock_after t e) es)"

fun clock_run_after :: "nat \<Rightarrow> event list \<Rightarrow> nat" where
  "clock_run_after t [] = t"
| "clock_run_after t (e # es) = clock_run_after (clock_after t e) es"

definition ids_fresh_below :: "nat \<Rightarrow> pet list \<Rightarrow> bool" where
  "ids_fresh_below t pets = (ids_distinct pets \<and> (\<forall>p\<in>set pets. \<exists>n<t. pet_id p = nat_to_string n))"

text \<open>
  The values the code writes into the message fields of the screen: each field message
  is empty or its "required" text, and the form message is absent or the uniqueness
  failure of \<open>addPet\<close>.
\<close>

definition msgs_ok :: "screen \<Rightarrow> bool" where
  "msgs_ok s =
     (name_error (fieldErrors s) \<in> {'''', ''Name field is required.''} \<and>
      age_error (fieldErrors s) \<in> {'''', ''Age field is required.''} \<and>
      description_error (fieldErrors s) \<in> {'''', ''Description field is required.''} \<and>
      formErrorMessage s \<in> {None, Some ''Pet names must be unique''})"

text \<open>A record the user can add and delete again to reset the form's messages.\<close>

definition clean_record :: pet where
  "clean_record = \<lparr>pet_id = ''0'', name = ''x'', age = ''1'', petCategory = None, pet_image = None,
                   description = Some ''x''\<rparr>"

subsection \<open>Invariants\<close>
lemma screen_event_records:
  assumes se: "screen_event pets s e = Some (pets', s')"
    and ok: "\<forall>p\<in>set pets. record_ok p" and ages: "\<forall>c\<in>set (form_age s). is_ascii_digit c"
  shows "\<forall>p\<in>set pets'. record_ok p"
proof (cases e)
  case (Submit now)
  with se have "pets' = fst (handleSubmit now pets s)" by auto
  moreover have "form_name s \<noteq> '''' \<Longrightarrow> form_age s \<noteq> '''' \<Longrightarrow> form_description s \<noteq> '''' \<Longrightarrow>
                 record_ok (submit_record now s)"
    using ages by (simp add: record_ok_def submit_record_def)
  ultimately show ?thesis
    using ok handleSubmit_records [of _ now pets s] by blast
next
  case (PressDelete item)
  with se ok show ?thesis by (auto simp: deletePet_def split: if_splits)
qed (use se ok in \<open>auto split: if_splits sum.splits\<close>)

lemma screen_event_age:
  assumes se: "screen_event pets s e = Some (pets', s')"
    and ok: "\<forall>p\<in>set pets. record_ok p" and ages: "\<forall>c\<in>set (form_age s). is_ascii_digit c"
  shows "\<forall>c\<in>set (form_age s'). is_ascii_digit c"
proof (cases e)
  case (ChangeAge v)
  with se show ?thesis by (auto simp: strip_non_digits_def)
next
  case (Submit now)
  with se have "s' = snd (handleSubmit now pets s)" by auto
  then show ?thesis using ages handleSubmit_screen [of now pets s] by auto
next
  case (PressEdit item)
  with se have "item \<in> set pets" and "form_age s' = age item"
    using displayed_subset by (auto split: if_splits)
  with ok show ?thesis by (auto simp: record_ok_def)
qed (use se ages in \<open>auto split: if_splits sum.splits\<close>)

lemma screen_event_species:
  assumes se: "screen_event pets s e = Some (pets', s')"
    and sp: "species s = '''' \<or> species s \<in> set SpeciesOptions"
  shows "species s' = '''' \<or> species s' \<in> set SpeciesOptions"
proof (cases e)
  case (Submit now)
  with se have "s' = snd (handleSubmit now pets s)" by auto
  then show ?thesis using sp handleSubmit_screen [of now pets s] by auto
qed (use se sp in \<open>auto split: if_splits sum.splits\<close>)

lemma app_step_inv:
  assumes step: "app_step a e = Some a'" and inv: "app_inv a"
  shows "app_inv a'"
proof -
  obtain pets' s' where se: "screen_event (provider_pets a) (main_screen a) e = Some (pets', s')"
    and a': "a' = \<lparr>provider_pets = pets', main_screen = editingPet_effect (editingPet (main_screen a)) s'\<rparr>"
    using step by (rule app_step_SomeE)
  from inv have ok: "\<forall>p\<in>set (provider_pets a). record_ok p"
    and ages: "\<forall>c\<in>set (form_age (main_screen a)). is_ascii_digit c"
    and sp: "species (main_screen a) = '''' \<or> species (main_screen a) \<in> set SpeciesOptions"
    by (auto simp: app_inv_def)
  have r: "\<forall>p\<in>set pets'. record_ok p" using screen_event_records [OF se ok ages] .
  have g: "\<forall>c\<in>set (form_age s'). is_ascii_digit c" using screen_event_age [OF se ok ages] .
  have q: "species s' = '''' \<or> species s' \<in> set SpeciesOptions" using screen_event_species [OF se sp] .
  show ?thesis
    using r g q editingPet_effect_cases [of "editingPet (main_screen a)" s']
    by (auto simp: app_inv_def a' clearFields_def)
qed

lemma reachable_app_inv: "reachable a \<Longrightarrow> app_inv a"
proof (induction rule: reachable.induct)
  case init
  show ?case by (simp add: app_inv_def app_init_def PetProvider_init_def MainScreen_init_def)
next
  case (step a e a')
  then show ?case by (blast intro: app_step_inv)
qed

lemma reachable_app_run: "app_run a es = Some a' \<Longrightarrow> reachable a \<Longrightarrow> reachable a'"
proof (induction es arbitrary: a)
  case Nil
  then show ?case by simp
next
  case (Cons e es)
  then obtain b where b: "app_step a e = Some b" and r: "app_run b es = Some a'"
    by (auto split: option.splits)
  from Cons.prems(2) b have "reachable b" by (rule reachable.step)
  with r show ?case by (rule Cons.IH)
qed

lemma screen_event_registry:
  "screen_event pets s e = Some (pets', s') \<Longrightarrow>
   pets' = pets \<or> (\<exists>i. pets' = deletePet pets i) \<or> (\<exists>now. e = Submit now \<and> pets' = fst (handleSubmit now pets s))"
  by (cases e) (auto split: if_splits sum.splits)

lemma ids_fresh_below_mono:
  "t \<le> t' \<Longrightarrow> ids_fresh_below t pets \<Longrightarrow> ids_fresh_below t' pets"
  unfolding ids_fresh_below_def by (meson order_less_le_trans)

lemma ids_fresh_below_delete: "ids_fresh_below t pets \<Longrightarrow> ids_fresh_below t (deletePet pets i)"
  unfolding ids_fresh_below_def using ids_distinct_deletePet [of pets i] by (auto simp: deletePet_def)

lemma ids_fresh_below_step:
  assumes se: "screen_event pets s e = Some (pets', s')" and clk: "clock_ok t e"
    and inv: "ids_fresh_below t pets"
  shows "ids_fresh_below (clock_after t e) pets'"
proof -
  have mono: "t \<le> clock_after t e" using clk by (cases e) auto
  consider (same) "pets' = pets" | (del) i where "pets' = deletePet pets i"
    | (sub) now where "e = Submit now" "pets' = fst (handleSubmit now pets s)"
    using screen_event_registry [OF se] by blast
  then show ?thesis
  proof cases
    case same
    with inv mono show ?thesis by (simp add: ids_fresh_below_mono)
  next
    case del
    with inv mono show ?thesis
      by (simp add: ids_fresh_below_mono ids_fresh_below_delete)
  next
    case sub
    from sub clk have le: "t \<le> now" by simp
    have old: "\<forall>p\<in>set pets. \<exists>n<Suc now. pet_id p = nat_to_string n"
      using ids_fresh_below_mono [of t "Suc now" pets] inv le by (simp add: ids_fresh_below_def)
    have fresh: "nat_to_string now \<notin> set (map pet_id pets)"
    proof
      assume "nat_to_string now \<in> set (map pet_id pets)"
      then obtain p where p: "p \<in> set pets" "pet_id p = nat_to_string now" by auto
      with inv obtain n where "n < t" "pet_id p = nat_to_string n"
        by (auto simp: ids_fresh_below_def)
      with p le show False by (simp add: nat_to_string_inj)
    qed
    from handleSubmit_ids [of now pets s] sub consider
        (kept) "map pet_id pets' = map pet_id pets"
      | (added) "map pet_id pets' = map pet_id pets @ [nat_to_string now]"
      by auto
    then show ?thesis
    proof cases
      case kept
      have idset: "pet_id ` set pets' = pet_id ` set pets"
        using arg_cong [OF kept, of set] by simp
      have d: "distinct (map pet_id pets')"
        using kept inv by (simp add: ids_fresh_below_def ids_distinct_def)
      have i: "\<forall>p\<in>set pets'. \<exists>n<Suc now. pet_id p = nat_to_string n"
      proof
        fix p assume "p \<in> set pets'"
        then have "pet_id p \<in> pet_id ` set pets" using idset by blast
        then obtain q where "q \<in> set pets" "pet_id p = pet_id q" by blast
        with old show "\<exists>n<Suc now. pet_id p = nat_to_string n" by metis
      qed
      from d i sub show ?thesis by (simp add: ids_fresh_below_def ids_distinct_def)
    next
      case added
      have idset: "pet_id ` set pets' = insert (nat_to_string now) (pet_id ` set pets)"
        using arg_cong [OF added, of set] by simp
      have d: "distinct (map pet_id pets')"
        using added inv fresh by (simp add: ids_fresh_below_def ids_distinct_def)
      have i: "\<forall>p\<in>set pets'. \<exists>n<Suc now. pet_id p = nat_to_string n"
      proof
        fix p assume "p \<in> set pets'"
        then have "pet_id p \<in> insert (nat_to_string now) (pet_id ` set pets)" using idset by blast
        then consider "pet_id p = nat_to_string now" | q where "q \<in> set pets" "pet_id p = pet_id q"
          by blast
        then show "\<exists>n<Suc now. pet_id p = nat_to_string n"
        proof cases
          case 1
          then show ?thesis by blast
        next
          case 2
          with old show ?thesis by metis
        qed
      qed
      from d i sub show ?thesis by (simp add: ids_fresh_below_def ids_distinct_def)
    qed
  qed
qed

lemma reachable_clock_ids: "reachable_clock t a \<Longrightarrow> ids_fresh_below t (provider_pets a)"
proof (induction rule: reachable_clock.induct)
  case init
  show ?case by (simp add: ids_fresh_below_def ids_distinct_def app_init_def PetProvider_init_def)
next
  case (step t a e a')
  from step.hyps(2) obtain pets' s' where se: "screen_event (provider_pets a) (main_screen a) e = Some (pets', s')"
    and a': "a' = \<lparr>provider_pets = pets', main_screen = editingPet_effect (editingPet (main_screen a)) s'\<rparr>"
    by (rule app_step_SomeE)
  from ids_fresh_below_step [OF se step.hyps(3) step.IH] a' show ?case by simp
qed

lemma reachable_clock_run:
  "app_run a es = Some a' \<Longrightarrow> reachable_clock t a \<Longrightarrow> clock_run_ok t es \<Longrightarrow>
   reachable_clock (clock_run_after t es) a'"
proof (induction es arbitrary: a t)
  case Nil
  then show ?case by simp
next
  case (Cons e es)
  then obtain b where b: "app_step a e = Some b" and r: "app_run b es = Some a'"
    by (auto split: option.splits)
  from Cons.prems(3) have ok: "clock_ok t e" and oks: "clock_run_ok (clock_after t e) es"
    by simp_all
  have "reachable_clock (clock_after t e) b"
    by (rule reachable_clock.step [OF Cons.prems(2) b ok])
  from Cons.IH [OF r this oks] show ?case by simp
qed

lemma reachable_clock_reachable: "reachable_clock t a \<Longrightarrow> reachable a"
  by (induction rule: reachable_clock.induct) (auto intro: reachable.init reachable.step)

lemma handleSubmit_msgs: "msgs_ok s \<Longrightarrow> msgs_ok (snd (handleSubmit now pets s))"
  by (cases "form_name s \<noteq> '''' \<and> form_age s \<noteq> '''' \<and> form_description s \<noteq> ''''"; cases "editingPet s")
     (auto simp: handleSubmit_cases validateFields_eq addPet_eq msgs_ok_def clearFields_def)

lemma screen_event_keeps_msgs:
  "screen_event pets s e = Some (pets', s') \<Longrightarrow> \<forall>now. e \<noteq> Submit now \<Longrightarrow>
   fieldErrors s' = fieldErrors s \<and> formErrorMessage s' = formErrorMessage s"
  by (cases e) (auto split: if_splits sum.splits)

lemma app_step_msgs:
  assumes step: "app_step a e = Some a'" and ok: "msgs_ok (main_screen a)"
  shows "msgs_ok (main_screen a')"
proof -
  obtain pets' s' where se: "screen_event (provider_pets a) (main_screen a) e = Some (pets', s')"
    and a': "a' = \<lparr>provider_pets = pets', main_screen = editingPet_effect (editingPet (main_screen a)) s'\<rparr>"
    using step by (rule app_step_SomeE)
  have "msgs_ok s'"
  proof (cases "\<exists>now. e = Submit now")
    case True
    then obtain now where "e = Submit now" ..
    with se have "s' = snd (handleSubmit now (provider_pets a) (main_screen a))" by auto
    with ok show ?thesis by (simp add: handleSubmit_msgs)
  next
    case False
    then have "fieldErrors s' = fieldErrors (main_screen a) \<and> formErrorMessage s' = formErrorMessage (main_screen a)"
      using screen_event_keeps_msgs [OF se] by blast
    with ok show ?thesis by (simp only: msgs_ok_def)
  qed
  then show ?thesis
    using editingPet_effect_cases [of "editingPet (main_screen a)" s']
    by (auto simp: a' msgs_ok_def clearFields_def)
qed

lemma screen_event_species_kept:
  assumes se: "screen_event pets s e = Some (pets', s')" and sp: "species s \<noteq> ''''"
  shows "species s' \<noteq> ''''"
proof (cases e)
  case (Submit now)
  with se have "s' = snd (handleSubmit now pets s)" by auto
  with sp show ?thesis using handleSubmit_screen [of now pets s] by simp
qed (use se sp in \<open>auto simp: SpeciesOptions_def PetCategories_def split: if_splits sum.splits\<close>)

lemma delete_all_records:
  "searchName (main_screen a) = '''' \<Longrightarrow>
   \<exists>es a'. length es \<le> length (provider_pets a) \<and> app_run a es = Some a' \<and>
           provider_pets a' = [] \<and> main_screen a' = main_screen a"
proof (induction "length (provider_pets a)" arbitrary: a rule: less_induct)
  case less
  show ?case
  proof (cases "provider_pets a")
    case Nil
    then have "length [] \<le> length (provider_pets a) \<and> app_run a [] = Some a \<and> provider_pets a = [] \<and>
               main_screen a = main_screen a" by simp
    then show ?thesis by blast
  next
    case (Cons p ps)
    define a1 where "a1 = a\<lparr>provider_pets := deletePet (provider_pets a) (pet_id p)\<rparr>"
    have step: "app_step a (PressDelete p) = Some a1"
      using less.prems Cons by (simp add: app_step_def displayed_pets_def editingPet_effect_def a1_def)
    have shorter: "length (provider_pets a1) < length (provider_pets a)"
      using Cons by (simp add: a1_def deletePet_def le_imp_less_Suc)
    have "searchName (main_screen a1) = ''''" using less.prems by (simp add: a1_def)
    from less.hyps [OF shorter this] obtain es a' where
      r: "length es \<le> length (provider_pets a1) \<and> app_run a1 es = Some a' \<and> provider_pets a' = [] \<and>
          main_screen a' = main_screen a1" by blast
    then have "length (PressDelete p # es) \<le> length (provider_pets a) \<and> app_run a (PressDelete p # es) = Some a' \<and>
               provider_pets a' = [] \<and> main_screen a' = main_screen a"
      using step shorter by (simp add: a1_def)
    then show ?thesis by blast
  qed
qed

lemma leave_edit_and_search:
  "\<exists>es a'. length es \<le> 2 \<and> app_run a es = Some a' \<and> provider_pets a' = provider_pets a \<and>
     editingPet (main_screen a') = None \<and> searchName (main_screen a') = '''' \<and>
     species (main_screen a') = species (main_screen a) \<and> breed (main_screen a') = breed (main_screen a)"
proof (cases "editingPet (main_screen a)")
  case None
  let ?es = "[ChangeSearch '''']"
  let ?a' = "\<lparr>provider_pets = provider_pets a, main_screen = (main_screen a)\<lparr>searchName := ''''\<rparr>\<rparr>"
  have "length ?es \<le> 2 \<and> app_run a ?es = Some ?a' \<and> provider_pets ?a' = provider_pets a \<and>
        editingPet (main_screen ?a') = None \<and> searchName (main_screen ?a') = '''' \<and>
        species (main_screen ?a') = species (main_screen a) \<and> breed (main_screen ?a') = breed (main_screen a)"
    using None by (simp add: app_step_def editingPet_effect_def)
  then show ?thesis by blast
next
  case (Some ep)
  let ?es = "[PressCancel, ChangeSearch '''']"
  let ?a' = "\<lparr>provider_pets = provider_pets a,
              main_screen = (clearFields ((main_screen a)\<lparr>editingPet := None\<rparr>))\<lparr>searchName := ''''\<rparr>\<rparr>"
  have "length ?es \<le> 2 \<and> app_run a ?es = Some ?a' \<and> provider_pets ?a' = provider_pets a \<and>
        editingPet (main_screen ?a') = None \<and> searchName (main_screen ?a') = '''' \<and>
        species (main_screen ?a') = species (main_screen a) \<and> breed (main_screen ?a') = breed (main_screen a)"
    using Some by (simp add: app_step_def editingPet_effect_def clearFields_def)
  then show ?thesis by blast
qed

lemma add_and_delete_clears:
  assumes "provider_pets a = []" and "editingPet (main_screen a) = None" and "searchName (main_screen a) = ''''"
  shows "app_run a [ChangeName ''x'', ChangeAge ''1'', ChangeDescription ''x'', Submit 0, PressDelete clean_record] =
           Some \<lparr>provider_pets = [],
                 main_screen = MainScreen_init\<lparr>species := species (main_screen a), breed := breed (main_screen a)\<rparr>\<rparr>"
  using assms by (cases "main_screen a") (simp add: run_simps clean_record_def)

text \<open>Runs from the initial state that the witnesses below evaluate.\<close>

lemma two_records_run:
  "\<exists>a. app_run app_init [ChangeName ''Rex'', ChangeAge ''3'', ChangeDescription ''friendly'', Submit 1,
                         ChangeName ''Milo'', ChangeAge ''2'', ChangeDescription ''x'', Submit 2] = Some a \<and>
       provider_pets a = [pet_Rex, pet_Milo] \<and> searchName (main_screen a) = ''''"
  by (simp add: run_simps scenario_pets)

lemma same_millisecond_run:
  "\<exists>a. app_run app_init [ChangeName ''Rex'', ChangeAge ''3'', ChangeDescription ''friendly'', Submit 5,
                         ChangeName ''Milo'', ChangeAge ''2'', ChangeDescription ''x'', Submit 5] = Some a \<and>
       map pet_id (provider_pets a) = [''5'', ''5''] \<and> searchName (main_screen a) = '''' \<and>
       species (main_screen a) = ''''"
  by (simp add: run_simps)

lemma rejected_add_run:
  "\<exists>a. app_run app_init [ChangeName ''Rex'', ChangeAge ''3'', ChangeDescription ''friendly'', Submit 1,
                         ChangeName ''rex'', ChangeAge ''1'', ChangeDescription ''x'', Submit 2] = Some a \<and>
       formErrorMessage (main_screen a) = Some ''Pet names must be unique''"
  by (simp add: run_simps)

subsection \<open>Properties of the application\<close>

text \<open>
  C10. Every record the application can ever hold is well formed: its name and
  description are non-empty, its age is a non-empty string of the digits 0-9, and it
  has no category and no image (the species and breed the user picks are never stored).
\<close>

theorem reachable_records_valid:
  "reachable a \<Longrightarrow> \<forall>p\<in>set (provider_pets a). record_ok p"
  using reachable_app_inv by (simp add: app_inv_def)

theorem reachable_records_valid_witness:
  "\<exists>a. reachable a \<and> provider_pets a = [pet_Rex] \<and> record_ok pet_Rex"
proof -
  let ?es = "[ChangeName ''Rex'', ChangeAge ''3'', ChangeDescription ''friendly'', Submit 1]"
  have "\<exists>a. app_run app_init ?es = Some a \<and> provider_pets a = [pet_Rex]"
    by (simp add: run_simps scenario_pets)
  then obtain a where run_pets: "app_run app_init ?es = Some a \<and> provider_pets a = [pet_Rex]" ..
  note run = conjunct1 [OF run_pets] and pets = conjunct2 [OF run_pets]
  have r: "reachable a" using reachable_app_run [OF run reachable.init] .
  have "record_ok pet_Rex" using reachable_records_valid [OF r] pets by simp
  with r pets have "reachable a \<and> provider_pets a = [pet_Rex] \<and> record_ok pet_Rex" by (intro conjI)
  then show ?thesis by (intro exI)
qed

text \<open>
  C11. Ids are unique as long as no two submits read the same millisecond: in every
  state reached with strictly increasing \<open>Date.now()\<close> values at the submits, the
  records' ids are pairwise distinct.
\<close>

theorem reachable_clock_ids_distinct:
  "reachable_clock t a \<Longrightarrow> ids_distinct (provider_pets a)"
  using reachable_clock_ids by (simp add: ids_fresh_below_def)

theorem reachable_clock_ids_distinct_witness:
  "\<exists>t a. reachable_clock t a \<and> map pet_id (provider_pets a) = [''1'', ''2''] \<and>
         ids_distinct (provider_pets a)"
proof -
  let ?es = "[ChangeName ''Rex'', ChangeAge ''3'', ChangeDescription ''friendly'', Submit 1,
              ChangeName ''Milo'', ChangeAge ''2'', ChangeDescription ''x'', Submit 2]"
  obtain a where x: "app_run app_init ?es = Some a \<and> provider_pets a = [pet_Rex, pet_Milo] \<and>
                     searchName (main_screen a) = ''''"
    using two_records_run ..
  note run = conjunct1 [OF x] and pets = conjunct1 [OF conjunct2 [OF x]]
  have ids: "map pet_id (provider_pets a) = [''1'', ''2'']" using pets by (simp add: scenario_pets)
  have r: "reachable_clock (clock_run_after 0 ?es) a"
    using reachable_clock_run [OF run reachable_clock.init] by simp
  have d: "ids_distinct (provider_pets a)" by (rule reachable_clock_ids_distinct [OF r])
  from r ids d have "reachable_clock (clock_run_after 0 ?es) a \<and> map pet_id (provider_pets a) = [''1'', ''2''] \<and>
                     ids_distinct (provider_pets a)" by (intro conjI)
  then show ?thesis by (intro exI)
qed

text \<open>
  C12. Ids come from the clock alone: two adds submitted in the same millisecond get the
  same id, so a reachable registry can hold two records with one id (and deleting one of
  them deletes both).
\<close>

theorem same_millisecond_duplicate_ids:
  "\<exists>a. reachable a \<and> map pet_id (provider_pets a) = [''5'', ''5''] \<and> \<not> ids_distinct (provider_pets a)"
proof -
  let ?es = "[ChangeName ''Rex'', ChangeAge ''3'', ChangeDescription ''friendly'', Submit 5,
              ChangeName ''Milo'', ChangeAge ''2'', ChangeDescription ''x'', Submit 5]"
  obtain a where x: "app_run app_init ?es = Some a \<and> map pet_id (provider_pets a) = [''5'', ''5''] \<and>
                     searchName (main_screen a) = '''' \<and> species (main_screen a) = ''''"
    using same_millisecond_run ..
  note run = conjunct1 [OF x] and ids = conjunct1 [OF conjunct2 [OF x]]
  have r: "reachable a" using reachable_app_run [OF run reachable.init] .
  have d: "\<not> ids_distinct (provider_pets a)" using ids by (simp add: ids_distinct_def)
  from r ids d have "reachable a \<and> map pet_id (provider_pets a) = [''5'', ''5''] \<and> \<not> ids_distinct (provider_pets a)"
    by (intro conjI)
  then show ?thesis by (intro exI)
qed

text \<open>
  C13. Through the screen, the registry can reach a state with two names that
  upper-case alike: add Rex, add Milo, edit Milo and rename it "rex", submit.
\<close>

theorem reachable_duplicate_names:
  "\<exists>a. reachable a \<and> map name (provider_pets a) = [''Rex'', ''rex''] \<and> \<not> names_unique (provider_pets a)"
proof -
  let ?es = "[ChangeName ''Rex'', ChangeAge ''3'', ChangeDescription ''friendly'', Submit 1,
              ChangeName ''Milo'', ChangeAge ''2'', ChangeDescription ''x'', Submit 2,
              PressEdit pet_Milo, ChangeName ''rex'', Submit 3]"
  have "\<exists>a. app_run app_init ?es = Some a \<and> map name (provider_pets a) = [''Rex'', ''rex'']"
    by (simp add: run_simps scenario_pets)
  then obtain a where run_ns: "app_run app_init ?es = Some a \<and> map name (provider_pets a) = [''Rex'', ''rex'']" ..
  note run = conjunct1 [OF run_ns] and ns = conjunct2 [OF run_ns]
  have r: "reachable a" using reachable_app_run [OF run reachable.init] .
  from arg_cong [OF ns, of "map toUpperCase"]
  have "map (\<lambda>p. toUpperCase (name p)) (provider_pets a) = [toUpperCase ''Rex'', toUpperCase ''rex'']"
    by (simp add: comp_def)
  then have d: "\<not> names_unique (provider_pets a)"
    by (simp add: names_unique_def upper_char_def)
  from r ns d have "reachable a \<and> map name (provider_pets a) = [''Rex'', ''rex''] \<and> \<not> names_unique (provider_pets a)"
    by (intro conjI)
  then show ?thesis by (intro exI)
qed

text \<open>
  C14. An edit of a record deleted meanwhile is lost without notice: in every state in
  edit mode whose edited record's (non-empty) id is no longer in the registry, a valid
  submit leaves the registry unchanged, reports no error, leaves edit mode and clears
  the form. The witness reaches such a state from the initial one (Edit on Rex, then
  Delete on Rex).
\<close>

theorem edit_after_delete_lost:
  assumes ed: "editingPet (main_screen a) = Some ep" and nz: "pet_id ep \<noteq> ''''"
    and gone: "pet_id ep \<notin> pet_id ` set (provider_pets a)"
    and f: "form_name (main_screen a) \<noteq> ''''" "form_age (main_screen a) \<noteq> ''''"
      "form_description (main_screen a) \<noteq> ''''"
  shows "\<exists>a'. app_step a (Submit now) = Some a' \<and> provider_pets a' = provider_pets a \<and>
           editingPet (main_screen a') = None \<and> formErrorMessage (main_screen a') = None \<and>
           form_name (main_screen a') = '''' \<and> form_age (main_screen a') = '''' \<and>
           form_description (main_screen a') = ''''"
proof -
  have id: "pet_id (submit_record now (main_screen a)) = pet_id ep"
    using ed nz by (simp add: submit_record_def submit_id_def)
  have "\<forall>p\<in>set (provider_pets a). pet_id p \<noteq> pet_id ep"
    using gone by (metis image_eqI)
  then have same: "snd (updatePet (provider_pets a) (submit_record now (main_screen a))) = provider_pets a"
    using id by (simp add: updatePet_def map_idI)
  show ?thesis
    using ed f same
    by (simp add: app_step_def handleSubmit_valid_update editingPet_effect_def clearFields_def validateFields_eq)
qed

theorem edit_after_delete_lost_witness:
  "\<exists>a a'. reachable a \<and> editingPet (main_screen a) = Some pet_Rex \<and> provider_pets a = [] \<and>
          app_step a (Submit 2) = Some a' \<and> provider_pets a' = [] \<and> formErrorMessage (main_screen a') = None"
proof -
  let ?es = "[ChangeName ''Rex'', ChangeAge ''3'', ChangeDescription ''friendly'', Submit 1,
              PressEdit pet_Rex, PressDelete pet_Rex, ChangeAge ''4'']"
  have "\<exists>a. app_run app_init ?es = Some a \<and> editingPet (main_screen a) = Some pet_Rex \<and> provider_pets a = [] \<and>
            form_name (main_screen a) = ''Rex'' \<and> form_age (main_screen a) = ''4'' \<and>
            form_description (main_screen a) = ''friendly''"
    by (simp add: run_simps scenario_pets)
  then obtain a where x: "app_run app_init ?es = Some a \<and> editingPet (main_screen a) = Some pet_Rex \<and>
            provider_pets a = [] \<and> form_name (main_screen a) = ''Rex'' \<and> form_age (main_screen a) = ''4'' \<and>
            form_description (main_screen a) = ''friendly''" ..
  note run = conjunct1 [OF x] and st = conjunct2 [OF x]
  have r: "reachable a" using reachable_app_run [OF run reachable.init] .
  from st have ed: "editingPet (main_screen a) = Some pet_Rex" and p: "provider_pets a = []"
    and f1: "form_name (main_screen a) \<noteq> ''''" and f2: "form_age (main_screen a) \<noteq> ''''"
    and f3: "form_description (main_screen a) \<noteq> ''''" by simp_all
  have nz: "pet_id pet_Rex \<noteq> ''''" by (simp add: scenario_pets)
  have gone: "pet_id pet_Rex \<notin> pet_id ` set (provider_pets a)" using p by simp
  obtain a' where a': "app_step a (Submit 2) = Some a'" and p': "provider_pets a' = provider_pets a"
    and m': "formErrorMessage (main_screen a') = None"
    using edit_after_delete_lost [OF ed nz gone f1 f2 f3, of 2] by blast
  from r ed p a' p' m' show ?thesis by auto
qed

text \<open>
  C21. The breed buttons never throw: in every reachable state whose species is set, the
  lookup of the species in the category table finds it and yields a list of breeds.
\<close>

theorem reachable_breed_options:
  "reachable a \<Longrightarrow> species (main_screen a) \<noteq> '''' \<Longrightarrow> \<exists>bs. breed_options (species (main_screen a)) = Inr bs"
proof -
  assume r: "reachable a" and sp: "species (main_screen a) \<noteq> ''''"
  from reachable_app_inv [OF r] sp have "species (main_screen a) \<in> set SpeciesOptions"
    by (simp add: app_inv_def)
  then show ?thesis
    by (auto simp: SpeciesOptions_def PetCategories_def breed_options_def)
qed

theorem reachable_breed_options_witness:
  "\<exists>a bs. reachable a \<and> species (main_screen a) = ''Dog'' \<and> breed_options (species (main_screen a)) = Inr bs"
proof -
  have "\<exists>a. app_run app_init [PressSpecies ''Dog''] = Some a \<and> species (main_screen a) = ''Dog''"
    by (simp add: app_step_def app_init_def MainScreen_init_def editingPet_effect_def species_simps)
  then obtain a where run_sp: "app_run app_init [PressSpecies ''Dog''] = Some a \<and> species (main_screen a) = ''Dog''" ..
  note run = conjunct1 [OF run_sp] and sp = conjunct2 [OF run_sp]
  have r: "reachable a" using reachable_app_run [OF run reachable.init] .
  have "species (main_screen a) \<noteq> ''''" using sp by simp
  from reachable_breed_options [OF r this] obtain bs where bs: "breed_options (species (main_screen a)) = Inr bs" ..
  from r sp bs have "reachable a \<and> species (main_screen a) = ''Dog'' \<and> breed_options (species (main_screen a)) = Inr bs"
    by (intro conjI)
  then show ?thesis by (intro exI)
qed

text \<open>
  C22. Changing the species keeps the breed: after choosing Dog, Pug, then Cat, the form
  holds species Cat with breed Pug, which is not a breed of Cat.
\<close>

theorem species_change_keeps_breed:
  "\<exists>a. reachable a \<and> species (main_screen a) = ''Cat'' \<and> breed (main_screen a) = ''Pug'' \<and>
       (\<exists>bs. breed_options ''Cat'' = Inr bs \<and> ''Pug'' \<notin> set bs)"
proof -
  let ?es = "[PressSpecies ''Dog'', PressBreed ''Pug'', PressSpecies ''Cat'']"
  have "\<exists>a. app_run app_init ?es = Some a \<and> species (main_screen a) = ''Cat'' \<and> breed (main_screen a) = ''Pug''"
    by (simp add: app_step_def app_init_def MainScreen_init_def editingPet_effect_def species_simps)
  then obtain a where run_st: "app_run app_init ?es = Some a \<and> species (main_screen a) = ''Cat'' \<and>
                               breed (main_screen a) = ''Pug''" ..
  note run = conjunct1 [OF run_st] and st = conjunct2 [OF run_st]
  have r: "reachable a" using reachable_app_run [OF run reachable.init] .
  have b: "\<exists>bs. breed_options ''Cat'' = Inr bs \<and> ''Pug'' \<notin> set bs"
    by (simp add: species_simps)
  from r st b have "reachable a \<and> species (main_screen a) = ''Cat'' \<and> breed (main_screen a) = ''Pug'' \<and>
                    (\<exists>bs. breed_options ''Cat'' = Inr bs \<and> ''Pug'' \<notin> set bs)"
    by (intro conjI) (simp_all only:)
  then show ?thesis by (intro exI)
qed

text \<open>
  C28. The screen renders in every reachable state: the species held is empty or a
  category of the table, so the breed lookup of the render never throws.
\<close>

theorem reachable_render_ok:
  "reachable a \<Longrightarrow> \<exists>v. MainScreen_render (provider_pets a) (main_screen a) = Inr v"
  using reachable_app_inv [of a] render_Inr_of_species [of "main_screen a" "provider_pets a"]
  by (simp add: app_inv_def)

theorem reachable_render_ok_witness: "\<exists>v. MainScreen_render [] MainScreen_init = Inr v"
  using reachable_render_ok [OF reachable.init] by (simp add: app_init_def PetProvider_init_def)

text \<open>
  C29. The keys of the \<open>FlatList\<close> (\<open>keyExtractor = item.id\<close>) are pairwise
  distinct, as React requires, in every state reached with strictly increasing clock
  values at the submits.
\<close>

theorem reachable_clock_list_keys:
  assumes r: "reachable_clock t a"
  shows "\<exists>v. MainScreen_render (provider_pets a) (main_screen a) = Inr v \<and>
             (\<forall>ks\<in>set (collect node_keys v). distinct ks)"
proof -
  obtain v where v: "MainScreen_render (provider_pets a) (main_screen a) = Inr v"
    using reachable_app_inv [OF reachable_clock_reachable [OF r]]
          render_Inr_of_species [of "main_screen a" "provider_pets a"]
    by (auto simp: app_inv_def)
  have "ids_distinct (provider_pets a)"
    using reachable_clock_ids [OF r] by (simp add: ids_fresh_below_def)
  then have "distinct (map pet_id (displayed_pets (provider_pets a) (main_screen a)))"
    by (simp add: ids_distinct_def displayed_pets_def searchPets_def distinct_map_filter)
  with v show ?thesis by (simp add: render_keys)
qed

theorem reachable_clock_list_keys_witness:
  "\<exists>t a v. reachable_clock t a \<and> MainScreen_render (provider_pets a) (main_screen a) = Inr v \<and>
           collect node_keys v = [[''1'', ''2'']] \<and> (\<forall>ks\<in>set (collect node_keys v). distinct ks)"
proof -
  let ?es = "[ChangeName ''Rex'', ChangeAge ''3'', ChangeDescription ''friendly'', Submit 1,
              ChangeName ''Milo'', ChangeAge ''2'', ChangeDescription ''x'', Submit 2]"
  obtain a where x: "app_run app_init ?es = Some a \<and> provider_pets a = [pet_Rex, pet_Milo] \<and>
                     searchName (main_screen a) = ''''"
    using two_records_run ..
  note run = conjunct1 [OF x] and pets = conjunct1 [OF conjunct2 [OF x]]
    and sn = conjunct2 [OF conjunct2 [OF x]]
  have r: "reachable_clock (clock_run_after 0 ?es) a"
    using reachable_clock_run [OF run reachable_clock.init] by simp
  obtain v where v: "MainScreen_render (provider_pets a) (main_screen a) = Inr v"
    and d: "\<forall>ks\<in>set (collect node_keys v). distinct ks"
    using reachable_clock_list_keys [OF r] by blast
  have k: "collect node_keys v = [[''1'', ''2'']]"
    using render_keys [OF v] pets sn by (simp add: displayed_pets_def scenario_pets)
  from r v k d show ?thesis by blast
qed

text \<open>
  C30. Without the clock discipline the list can get duplicate keys: two adds in the
  same millisecond lead to a reachable screen whose \<open>FlatList\<close> has the key "5" twice.
\<close>

theorem reachable_duplicate_list_keys:
  "\<exists>a v. reachable a \<and> MainScreen_render (provider_pets a) (main_screen a) = Inr v \<and>
         collect node_keys v = [[''5'', ''5'']]"
proof -
  let ?es = "[ChangeName ''Rex'', ChangeAge ''3'', ChangeDescription ''friendly'', Submit 5,
              ChangeName ''Milo'', ChangeAge ''2'', ChangeDescription ''x'', Submit 5]"
  obtain a where x: "app_run app_init ?es = Some a \<and> map pet_id (provider_pets a) = [''5'', ''5''] \<and>
                     searchName (main_screen a) = '''' \<and> species (main_screen a) = ''''"
    using same_millisecond_run ..
  note run = conjunct1 [OF x] and ids = conjunct1 [OF conjunct2 [OF x]]
    and sn = conjunct1 [OF conjunct2 [OF conjunct2 [OF x]]] and sp = conjunct2 [OF conjunct2 [OF conjunct2 [OF x]]]
  have r: "reachable a" using reachable_app_run [OF run reachable.init] .
  obtain v where v: "MainScreen_render (provider_pets a) (main_screen a) = Inr v"
    using render_Inr_of_species [of "main_screen a" "provider_pets a"] sp by auto
  have k: "collect node_keys v = [[''5'', ''5'']]"
    using render_keys [OF v] ids sn by (simp add: displayed_pets_def)
  from r v k show ?thesis by blast
qed

text \<open>
  C31. The user can always get back to a clean screen, in a bounded number of steps:
  from every state, a sequence of at most seven events more than there are records
  (cancel an edit, clear the search box, delete every record, add and delete one record
  to reset the messages) reaches the empty registry with the initial form, except for
  the species and breed chosen.
\<close>

theorem recover_clean_form:
  "\<exists>es a'. length es \<le> length (provider_pets a) + 7 \<and> app_run a es = Some a' \<and>
     a' = \<lparr>provider_pets = [],
           main_screen = MainScreen_init\<lparr>species := species (main_screen a), breed := breed (main_screen a)\<rparr>\<rparr>"
proof -
  obtain es0 a0 where l0: "length es0 \<le> 2" and r0: "app_run a es0 = Some a0"
    and p0: "provider_pets a0 = provider_pets a"
    and e0: "editingPet (main_screen a0) = None" and s0: "searchName (main_screen a0) = ''''"
    and sp0: "species (main_screen a0) = species (main_screen a)" and b0: "breed (main_screen a0) = breed (main_screen a)"
    using leave_edit_and_search [of a] by blast
  obtain es1 a1 where l1: "length es1 \<le> length (provider_pets a0)" and r1: "app_run a0 es1 = Some a1"
    and p1: "provider_pets a1 = []" and m1: "main_screen a1 = main_screen a0"
    using delete_all_records [OF s0] by blast
  let ?es2 = "[ChangeName ''x'', ChangeAge ''1'', ChangeDescription ''x'', Submit 0, PressDelete clean_record]"
  have r2: "app_run a1 ?es2 =
           Some \<lparr>provider_pets = [],
                 main_screen = MainScreen_init\<lparr>species := species (main_screen a), breed := breed (main_screen a)\<rparr>\<rparr>"
    using add_and_delete_clears [of a1] p1 m1 e0 s0 sp0 b0 by simp
  have "app_run a (es0 @ es1 @ ?es2) =
           Some \<lparr>provider_pets = [],
                 main_screen = MainScreen_init\<lparr>species := species (main_screen a), breed := breed (main_screen a)\<rparr>\<rparr>"
    using r0 r1 r2 by (simp add: app_run_append)
  moreover have "length (es0 @ es1 @ ?es2) \<le> length (provider_pets a) + 7"
    using l0 l1 p0 by simp
  ultimately show ?thesis by blast
qed

text \<open>
  C32. A chosen species can never be cleared: no control sets the species back to the
  empty string, so once one is chosen every later state has one, and the initial
  state of the application is never reached again.
\<close>

theorem species_choice_permanent:
  "app_run a es = Some a' \<Longrightarrow> species (main_screen a) \<noteq> '''' \<Longrightarrow>
   species (main_screen a') \<noteq> '''' \<and> a' \<noteq> app_init"
proof (induction es arbitrary: a)
  case Nil
  then show ?case by (auto simp: app_init_def MainScreen_init_def)
next
  case (Cons e es)
  then obtain b where b: "app_step a e = Some b" and r: "app_run b es = Some a'"
    by (auto split: option.splits)
  obtain pets' s' where se: "screen_event (provider_pets a) (main_screen a) e = Some (pets', s')"
    and bdef: "b = \<lparr>provider_pets = pets', main_screen = editingPet_effect (editingPet (main_screen a)) s'\<rparr>"
    using b by (rule app_step_SomeE)
  have "species (main_screen b) \<noteq> ''''"
    using screen_event_species_kept [OF se Cons.prems(2)] editingPet_effect_cases [of "editingPet (main_screen a)" s']
    by (auto simp: bdef clearFields_def)
  with r show ?case by (rule Cons.IH)
qed

theorem species_choice_permanent_witness:
  "species (main_screen \<lparr>provider_pets = [], main_screen = MainScreen_init\<lparr>species := ''Dog''\<rparr>\<rparr>) \<noteq> '''' \<and>
   app_run \<lparr>provider_pets = [], main_screen = MainScreen_init\<lparr>species := ''Dog''\<rparr>\<rparr> [ChangeName ''Rex''] \<noteq> Some app_init"
proof -
  let ?a = "\<lparr>provider_pets = [], main_screen = MainScreen_init\<lparr>species := ''Dog''\<rparr>\<rparr>"
  have sp: "species (main_screen ?a) \<noteq> ''''" by simp
  have "app_run ?a [ChangeName ''Rex''] = Some (the (app_run ?a [ChangeName ''Rex'']))"
    by (simp add: app_step_def)
  from species_choice_permanent [OF this sp] sp show ?thesis by auto
qed

text \<open>
  C35. The message fields of a reachable screen only ever hold the texts the code
  writes: each field message is empty or its "is required" text, and the form message
  is absent or "Pet names must be unique".
\<close>

theorem reachable_messages_typed: "reachable a \<Longrightarrow> msgs_ok (main_screen a)"
proof (induction rule: reachable.induct)
  case init
  show ?case by (simp add: msgs_ok_def app_init_def MainScreen_init_def no_field_errors_def)
next
  case (step a e a')
  then show ?case by (blast intro: app_step_msgs)
qed

theorem reachable_messages_typed_witness:
  "\<exists>a. reachable a \<and> formErrorMessage (main_screen a) = Some ''Pet names must be unique'' \<and> msgs_ok (main_screen a)"
proof -
  let ?es = "[ChangeName ''Rex'', ChangeAge ''3'', ChangeDescription ''friendly'', Submit 1,
              ChangeName ''rex'', ChangeAge ''1'', ChangeDescription ''x'', Submit 2]"
  obtain a where x: "app_run app_init ?es = Some a \<and> formErrorMessage (main_screen a) = Some ''Pet names must be unique''"
    using rejected_add_run ..
  note run = conjunct1 [OF x] and m = conjunct2 [OF x]
  have r: "reachable a" using reachable_app_run [OF run reachable.init] .
  from r m reachable_messages_typed [OF r] show ?thesis by blast
qed

end
